theory Spec2Isabelle
  imports Complex_Main
begin

section \<open>Numbers, vectors and the viewport rectangle\<close>

text \<open>
  JavaScript numbers are modelled as reals. Where the source would compute a NaN or an
  infinity (a division by zero, the square root of a negative number, arithmetic on
  \<open>undefined\<close>) the source carries on with that value; the model stops with
  \<open>NonFinite\<close>. \<open>TypeError\<close> is the exception JavaScript raises when a
  property of \<open>null\<close> or \<open>undefined\<close> is read.
\<close>

datatype error = NonFinite | TypeError

type_synonym vec2 = "real \<times> real"
type_synonym vec3 = "real \<times> real \<times> real"

text \<open>
  The rectangle returned by \<open>getBoundingClientRect()\<close>: \<open>x\<close>, \<open>y\<close>, \<open>width\<close>,
  \<open>height\<close>, with \<open>left\<close>, \<open>right\<close>, \<open>top\<close>, \<open>bottom\<close> derived as the DOM geometry
  interface defines them.
\<close>

record DOMRect =
  rect_x :: real
  rect_y :: real
  width :: real
  height :: real

definition left :: "DOMRect \<Rightarrow> real" where
  "left b = min (rect_x b) (rect_x b + width b)"

definition right :: "DOMRect \<Rightarrow> real" where
  "right b = max (rect_x b) (rect_x b + width b)"

definition top :: "DOMRect \<Rightarrow> real" where
  "top b = min (rect_y b) (rect_y b + height b)"

definition bottom :: "DOMRect \<Rightarrow> real" where
  "bottom b = max (rect_y b) (rect_y b + height b)"

section \<open>The quaternion primitive\<close>

text \<open>
  Modelled from the spec: the Quaternion primitive (Quaternion.js, an external dependency
  that \<open>trackball.js\<close> requires and that is not part of the repository's sources).
  The spec lists its interface: construction from components, \<open>multiply\<close>, an identity
  constant, \<open>fromTwoVectors(a,b)\<close> (the shortest-arc rotation taking one vector to the
  other) and \<open>fromEuler(pitch,yaw,roll,order)\<close>. \<open>Quaternion w x y z\<close> is
  \<open>new Quaternion(w, x, y, z)\<close>, \<open>mul\<close> is the Hamilton product.
\<close>

datatype Quaternion = Quaternion (qw: real) (qx: real) (qy: real) (qz: real)

definition ONE :: Quaternion where
  "ONE = Quaternion 1 0 0 0"

fun mul :: "Quaternion \<Rightarrow> Quaternion \<Rightarrow> Quaternion" where
  "mul (Quaternion w1 x1 y1 z1) (Quaternion w2 x2 y2 z2) =
     Quaternion (w1 * w2 - x1 * x2 - y1 * y2 - z1 * z2)
                (w1 * x2 + x1 * w2 + y1 * z2 - z1 * y2)
                (w1 * y2 + y1 * w2 + z1 * x2 - x1 * z2)
                (w1 * z2 + z1 * w2 + x1 * y2 - y1 * x2)"

definition normSq :: "Quaternion \<Rightarrow> real" where
  "normSq p = qw p * qw p + qx p * qx p + qy p * qy p + qz p * qz p"

definition isUnit :: "Quaternion \<Rightarrow> bool" where
  "isUnit p \<longleftrightarrow> normSq p = 1"

definition conjugate :: "Quaternion \<Rightarrow> Quaternion" where
  "conjugate p = Quaternion (qw p) (- qx p) (- qy p) (- qz p)"

definition newNormalized :: "real \<Rightarrow> real \<Rightarrow> real \<Rightarrow> real \<Rightarrow> Quaternion" where
  "newNormalized w x y z =
     (let il = 1 / sqrt (w * w + x * x + y * y + z * z)
      in Quaternion (w * il) (x * il) (y * il) (z * il))"

text \<open>
  Modelled from the spec: \<open>Quaternion.fromVectors(u, v)\<close>, the shortest-arc rotation
  from \<open>u\<close> to \<open>v\<close>. Both vectors are normalised (a zero vector is left as it is);
  parallel vectors give the identity; for antiparallel vectors, where every half turn
  about an axis orthogonal to \<open>u\<close> is a shortest arc, the axis is \<open>(-uy, ux, 0)\<close>
  or \<open>(0, -uz, uy)\<close>; otherwise the quaternion is \<open>(1 + u\<cdot>v, u \<times> v)\<close>, normalised.
\<close>

definition fromVectors :: "vec3 \<Rightarrow> vec3 \<Rightarrow> Quaternion" where
  "fromVectors u v =
     (case u of (ux0, uy0, uz0) \<Rightarrow> case v of (vx0, vy0, vz0) \<Rightarrow>
      let uLen = sqrt (ux0 * ux0 + uy0 * uy0 + uz0 * uz0);
          vLen = sqrt (vx0 * vx0 + vy0 * vy0 + vz0 * vz0);
          ux = (if uLen > 0 then ux0 / uLen else ux0);
          uy = (if uLen > 0 then uy0 / uLen else uy0);
          uz = (if uLen > 0 then uz0 / uLen else uz0);
          vx = (if vLen > 0 then vx0 / vLen else vx0);
          vy = (if vLen > 0 then vy0 / vLen else vy0);
          vz = (if vLen > 0 then vz0 / vLen else vz0);
          dot = ux * vx + uy * vy + uz * vz
      in if dot \<ge> 1 then ONE
         else if 1 + dot \<le> 0 then
           (if \<bar>ux\<bar> > \<bar>uz\<bar> then newNormalized 0 (- uy) ux 0
            else newNormalized 0 0 (- uz) uy)
         else newNormalized (1 + dot) (uy * vz - uz * vy) (uz * vx - ux * vz)
                (ux * vy - uy * vx))"

text \<open>
  Modelled from the spec: \<open>Quaternion.fromEuler(a, b, c, 'XYZ')\<close>, the rotation by
  \<open>a\<close> about X, then \<open>b\<close> about Y, then \<open>c\<close> about Z, from the half angles.
\<close>

definition fromEuler :: "real \<Rightarrow> real \<Rightarrow> real \<Rightarrow> Quaternion" where
  "fromEuler a b c =
     (let cX = cos (a * 0.5); cY = cos (b * 0.5); cZ = cos (c * 0.5);
          sX = sin (a * 0.5); sY = sin (b * 0.5); sZ = sin (c * 0.5)
      in Quaternion (cX * cY * cZ - sX * sY * sZ)
                    (sX * cY * cZ + sY * sZ * cX)
                    (sY * cX * cZ - sX * sZ * cY)
                    (sX * sY * cZ + sZ * cY * cX))"

section \<open>Configuration and controller state\<close>

text \<open>
  The argument of the constructor: every option may be missing (\<open>None\<close> is
  \<open>undefined\<close>; all are missing when a DOM node is passed in place of the options),
  and the destructuring pattern supplies the defaults. The option
  \<open>scene\<close> names the DOM element and \<open>onDraw\<close> the callback; the element is the
  source of the rectangles of the mouse-down events, and the calls of the callback are
  logged in the field \<open>drawn\<close> of the state.
\<close>

record opts_arg =
  arg_rotationMethod :: "string option"
  arg_clampElevation :: "bool option"
  arg_border :: "real option"
  arg_ballsize :: "real option"
  arg_q :: "Quaternion option"

record opts =
  rotationMethod :: "string option"
  clampElevation :: bool
  border :: real
  ballsize :: real

record drag =
  startVector :: "vec3 option"
  startPosition :: vec2
  box :: DOMRect

text \<open>
  The private fields of the class. \<open>azimuth\<close> and \<open>elevation\<close> are declared without
  an initialiser, so they are \<open>undefined\<close> (\<open>None\<close>) until assigned, and the two
  start values can be assigned from them.
\<close>

record state =
  q0 :: Quaternion
  q :: Quaternion
  azimuth :: "real option"
  elevation :: "real option"
  azimuth_start :: "real option"
  elevation_start :: "real option"
  drag :: "drag option"
  isUpdatePending :: bool
  lastMousePosition :: "vec2 option"
  opts :: opts
  drawn :: "Quaternion list"

definition draw :: "state \<Rightarrow> state" where
  "draw s = s\<lparr>drawn := drawn s @ [q s]\<rparr>"

definition default_to :: "'a \<Rightarrow> 'a option \<Rightarrow> 'a" where
  "default_to d v = (case v of None \<Rightarrow> d | Some x \<Rightarrow> x)"

definition constructor :: "opts_arg \<Rightarrow> state" where
  "constructor a =
     (let o1 = \<lparr>rotationMethod = arg_rotationMethod a,
                clampElevation = default_to False (arg_clampElevation a),
                border = default_to 0 (arg_border a),
                ballsize = default_to 0.75 (arg_ballsize a)\<rparr>;
          q1 = default_to ONE (arg_q a);
          o2 = (if rotationMethod o1 = Some ''rounded_arcball''
                then o1\<lparr>border := 0.5\<rparr> else o1)
      in draw \<lparr>q0 = q1, q = q1, azimuth = None, elevation = None,
               azimuth_start = Some 0, elevation_start = Some 0, drag = None,
               isUpdatePending = False, lastMousePosition = None, opts = o2,
               drawn = []\<rparr>)"

section \<open>The public methods\<close>

definition rotate :: "state \<Rightarrow> Quaternion \<Rightarrow> state" where
  "rotate s quaternion =
     (if drag s = None
      then draw (s\<lparr>q0 := mul (q0 s) quaternion, q := mul (q0 s) quaternion\<rparr>)
      else s)"

definition reset :: "state \<Rightarrow> state" where
  "reset s =
     draw (s\<lparr>drag := None, q := Quaternion 1 0 0 0, q0 := Quaternion 1 0 0 0,
             azimuth := Some 0, azimuth_start := Some 0,
             elevation := Some 0, elevation_start := Some 0\<rparr>)"

section \<open>Ball projection\<close>

definition projecting :: "string option \<Rightarrow> bool" where
  "projecting m \<longleftrightarrow> m \<in> set [Some ''sphere'', Some ''shoemake'', Some ''rounded_arcball'']"

text \<open>The normalised pointer coordinates \<open>px\<close> and \<open>py\<close> of \<open>#project\<close>.\<close>

definition px :: "opts \<Rightarrow> real \<Rightarrow> DOMRect \<Rightarrow> real" where
  "px o1 x b =
     (2 * (x - rect_x b) - width b - 1) / (max (width b) (height b) - 1) / ballsize o1"

definition py :: "opts \<Rightarrow> real \<Rightarrow> DOMRect \<Rightarrow> real" where
  "py o1 y b =
     - (2 * (y - rect_y b) - height b - 1) / (max (width b) (height b) - 1) / ballsize o1"

text \<open>
  \<open>#project\<close>. The result \<open>Inr None\<close> is \<open>undefined\<close>: the function returns nothing
  when the method is in neither list (the coordinates it has computed are then dropped).
  \<open>1 / ra\<close> is an infinity when \<open>ra\<close> is zero, and \<open>ri\<close> is then zero.
\<close>

definition project :: "opts \<Rightarrow> real \<Rightarrow> real \<Rightarrow> DOMRect \<Rightarrow> error + vec3 option" where
  "project o1 x y b =
     (let maxDim = max (width b) (height b) - 1;
          ra = 1 + border o1;
          a = border o1 * (1 + border o1 / 2);
          ri = (if ra = 0 then 0 else 2 / (ra + 1 / ra))
      in if \<not> projecting (rotationMethod o1) \<and> rotationMethod o1 \<noteq> Some ''bell''
         then Inr None
         else if maxDim = 0 \<or> ballsize o1 = 0 then Inl NonFinite
         else
           let dist2 = (px o1 x b * px o1 x b + py o1 y b * py o1 y b) * (ra * ra);
               dist = sqrt dist2
           in if projecting (rotationMethod o1) then
                (if dist < ri then
                   (if 1 - dist2 < 0 then Inl NonFinite
                    else Inr (Some (px o1 x b, py o1 y b, sqrt (1 - dist2))))
                 else if dist < ra then
                   (let dr = ra - dist
                    in if (a + dr) * (a - dr) < 0 then Inl NonFinite
                       else Inr (Some (px o1 x b, py o1 y b,
                                       a - sqrt ((a + dr) * (a - dr)))))
                 else Inr (Some (px o1 x b, py o1 y b, 0)))
              else
                (if dist < 1 / sqrt 2 then
                   (if 1 - dist2 < 0 then Inl NonFinite
                    else Inr (Some (px o1 x b, py o1 y b, sqrt (1 - dist2))))
                 else if dist = 0 then Inl NonFinite
                 else Inr (Some (px o1 x b, py o1 y b, 1 / (2 * dist)))))"

section \<open>The drag session\<close>

definition handleMouseDown :: "state \<Rightarrow> real \<Rightarrow> real \<Rightarrow> DOMRect \<Rightarrow> error + state" where
  "handleMouseDown s clientX clientY b =
     (case project (opts s) clientX clientY b of
        Inl e \<Rightarrow> Inl e
      | Inr v \<Rightarrow>
          Inr (draw (s\<lparr>drag := Some \<lparr>startVector = v,
                                       startPosition = (clientX, clientY),
                                       box = b\<rparr>\<rparr>)))"

text \<open>
  \<open>#handleMouseMove\<close> records the sample and requests one animation frame unless one
  is pending; the frame itself is the event \<open>AnimationFrame\<close> below.
\<close>

definition handleMouseMove :: "state \<Rightarrow> real \<Rightarrow> real \<Rightarrow> state" where
  "handleMouseMove s clientX clientY =
     (if drag s = None then s
      else s\<lparr>lastMousePosition := Some (clientX, clientY), isUpdatePending := True\<rparr>)"

definition isInBounds :: "real \<Rightarrow> real \<Rightarrow> DOMRect \<Rightarrow> bool" where
  "isInBounds x y b \<longleftrightarrow> x \<ge> left b \<and> x \<le> right b \<and> y \<ge> top b \<and> y \<le> bottom b"

definition updateTrackball :: "state \<Rightarrow> real \<Rightarrow> real \<Rightarrow> real \<Rightarrow> real \<Rightarrow> error + state" where
  "updateTrackball s deltaX deltaY clientX clientY =
     (case drag s of
        None \<Rightarrow> Inl TypeError
      | Some d \<Rightarrow>
          let minDim = min (height (box d)) (width (box d))
          in if minDim = 0 then Inl NonFinite
             else
               let k0 = deltaY / minDim; k1 = deltaX / minDim; k2 = 0;
                   norm = sqrt (k0 * k0 + k1 * k1 + k2 * k2);
                   theta = norm * pi / 2;
                   cosTheta = cos theta
               in if norm = 0 then Inl NonFinite
                  else
                    let sinThetaNormalized = sin theta / norm;
                        dq = Quaternion cosTheta (k0 * sinThetaNormalized)
                               (k1 * sinThetaNormalized) (k2 * sinThetaNormalized);
                        s1 = s\<lparr>q := mul dq (q0 s)\<rparr>
                    in if rotationMethod (opts s) = Some ''trackball''
                       then Inr (s1\<lparr>q0 := q s1,
                                    drag := Some (d\<lparr>startPosition := (clientX, clientY)\<rparr>)\<rparr>)
                       else Inr s1)"

text \<open>
  \<open>Quaternion.fromVectors\<close> reads the components of both of its arguments, so it
  raises a TypeError when \<open>#project\<close> has returned \<open>undefined\<close>.
\<close>

definition updateSphericalMethods :: "state \<Rightarrow> real \<Rightarrow> real \<Rightarrow> error + state" where
  "updateSphericalMethods s clientX clientY =
     (case drag s of
        None \<Rightarrow> Inl TypeError
      | Some d \<Rightarrow>
          (case project (opts s) clientX clientY (box d) of
             Inl e \<Rightarrow> Inl e
           | Inr currentVector \<Rightarrow>
               (case (startVector d, currentVector) of
                  (Some u, Some v) \<Rightarrow>
                    let dq = fromVectors u v
                    in if rotationMethod (opts s) = Some ''sphere''
                       then
                         let s1 = s\<lparr>q := mul dq (q0 s)\<rparr>
                         in Inr (s1\<lparr>q0 := q s1,
                                     drag := Some (d\<lparr>startVector := currentVector,
                                                      startPosition := (clientX, clientY)\<rparr>)\<rparr>)
                       else if rotationMethod (opts s) \<in>
                                 set [Some ''shoemake'', Some ''rounded_arcball'', Some ''bell'']
                       then Inr (s\<lparr>q := mul dq (mul dq (q0 s))\<rparr>)
                       else Inr s
                | _ \<Rightarrow> Inl TypeError)))"

text \<open>
  \<open>#updateAzEl\<close>. An \<open>undefined\<close> start angle makes the sum NaN, as does a zero
  smaller side of the rectangle (\<open>scaleX\<close> is then an infinity).
\<close>

definition updateAzEl :: "state \<Rightarrow> real \<Rightarrow> real \<Rightarrow> error + state" where
  "updateAzEl s deltaX deltaY =
     (case drag s of
        None \<Rightarrow> Inl TypeError
      | Some d \<Rightarrow>
          if min (width (box d)) (height (box d)) = 0 then Inl NonFinite
          else
            let scaleX = pi / min (width (box d)) (height (box d));
                scaleY = scaleX
            in (case (azimuth_start s, elevation_start s) of
                  (Some az0, Some el0) \<Rightarrow>
                    let az = az0 + deltaX * scaleX;
                        el = (if clampElevation (opts s)
                              then max (- pi / 2 + 0.01) (min (pi / 2 - 0.01) (el0 + deltaY * scaleY))
                              else el0 + deltaY * scaleY)
                    in Inr (s\<lparr>azimuth := Some az, elevation := Some el,
                               q := fromEuler el az 0\<rparr>)
                | _ \<Rightarrow> Inl NonFinite))"

definition updateRotation :: "state \<Rightarrow> real \<Rightarrow> real \<Rightarrow> error + state" where
  "updateRotation s clientX clientY =
     (case drag s of
        None \<Rightarrow> Inl TypeError
      | Some d \<Rightarrow>
          let deltaX = clientX - fst (startPosition d);
              deltaY = clientY - snd (startPosition d)
          in if deltaX = 0 \<and> deltaY = 0 then Inr s
             else if rotationMethod (opts s) = Some ''azel''
             then updateAzEl s deltaX deltaY
             else if rotationMethod (opts s) = Some ''trackball''
                     \<or> rotationMethod (opts s) = Some ''trackball_no_precession''
             then updateTrackball s deltaX deltaY clientX clientY
             else updateSphericalMethods s clientX clientY)"

definition update :: "state \<Rightarrow> error + state" where
  "update s =
     (case (lastMousePosition s, drag s) of
        (Some (clientX, clientY), Some d) \<Rightarrow>
          if isInBounds clientX clientY (box d)
          then (case updateRotation s clientX clientY of
                  Inl e \<Rightarrow> Inl e
                | Inr s1 \<Rightarrow> Inr ((draw s1)\<lparr>isUpdatePending := False\<rparr>))
          else Inr (s\<lparr>isUpdatePending := False\<rparr>)
      | _ \<Rightarrow> Inr (s\<lparr>isUpdatePending := False\<rparr>))"

definition handleMouseUp :: "state \<Rightarrow> state" where
  "handleMouseUp s =
     (if drag s = None then s
      else draw (s\<lparr>drag := None, q0 := q s, lastMousePosition := None,
                   azimuth_start := azimuth s, elevation_start := elevation s\<rparr>))"

section \<open>Events\<close>

text \<open>
  What the browser delivers to the controller: the three mouse events (a touch with a
  single contact is handed to the same handlers), the animation frame that
  \<open>#handleMouseMove\<close> has requested, and the calls of the two public methods. A frame
  runs \<open>#update\<close> only when one was requested. A TypeError raised inside the frame
  callback is not caught by the class: the callback ends there, with the state as it was
  (nothing is assigned before \<open>fromVectors\<close> is called, and \<open>isUpdatePending\<close> stays
  set).
\<close>

datatype event =
    MouseDown real real DOMRect
  | MouseMove real real
  | AnimationFrame
  | MouseUp
  | Rotate Quaternion
  | Reset

fun step :: "state \<Rightarrow> event \<Rightarrow> error + state" where
  "step s (MouseDown x y b) = handleMouseDown s x y b"
| "step s (MouseMove x y) = Inr (handleMouseMove s x y)"
| "step s AnimationFrame =
     (if isUpdatePending s
      then (case update s of
              Inl TypeError \<Rightarrow> Inr s
            | Inl NonFinite \<Rightarrow> Inl NonFinite
            | Inr s1 \<Rightarrow> Inr s1)
      else Inr s)"
| "step s MouseUp = Inr (handleMouseUp s)"
| "step s (Rotate p) = Inr (rotate s p)"
| "step s Reset = Inr (reset s)"

fun run :: "state \<Rightarrow> event list \<Rightarrow> error + state" where
  "run s [] = Inr s"
| "run s (e # es) = (case step s e of Inl err \<Rightarrow> Inl err | Inr s1 \<Rightarrow> run s1 es)"

section \<open>Definitions for the proofs\<close>

text \<open>
  The two steps of \<open>fromVectors\<close>, named for the proofs: the normalisation of a vector
  and the rotation between two normalised vectors.
\<close>

definition normalize3 :: "vec3 \<Rightarrow> vec3" where
  "normalize3 u = (case u of (a, b, c) \<Rightarrow>
     let l = sqrt (a * a + b * b + c * c) in
     (if l > 0 then a / l else a, if l > 0 then b / l else b, if l > 0 then c / l else c))"

definition arc :: "vec3 \<Rightarrow> vec3 \<Rightarrow> Quaternion" where
  "arc u v = (case u of (ux, uy, uz) \<Rightarrow> case v of (vx, vy, vz) \<Rightarrow>
      let dot = ux * vx + uy * vy + uz * vz
      in if dot \<ge> 1 then ONE
         else if 1 + dot \<le> 0 then
           (if \<bar>ux\<bar> > \<bar>uz\<bar> then newNormalized 0 (- uy) ux 0
            else newNormalized 0 0 (- uz) uy)
         else newNormalized (1 + dot) (uy * vz - uz * vy) (uz * vx - ux * vz)
                (ux * vy - uy * vx))"

definition unit_or_zero :: "vec3 \<Rightarrow> bool" where
  "unit_or_zero u \<longleftrightarrow> (case u of (x, y, z) \<Rightarrow>
      x * x + y * y + z * z = 1 \<or> (x = 0 \<and> y = 0 \<and> z = 0))"

text \<open>
  The incremental rotation \<open>dq\<close> that \<open>#updateTrackball\<close> builds from the pointer
  delta and the smaller side of the rectangle, when it divides by no zero.
\<close>

definition trackball_dq :: "real \<Rightarrow> real \<Rightarrow> real \<Rightarrow> Quaternion" where
  "trackball_dq deltaX deltaY minDim =
     (let k0 = deltaY / minDim; k1 = deltaX / minDim; k2 = 0;
          norm = sqrt (k0 * k0 + k1 * k1 + k2 * k2);
          theta = norm * pi / 2
      in Quaternion (cos theta) (k0 * (sin theta / norm)) (k1 * (sin theta / norm))
           (k2 * (sin theta / norm)))"

text \<open>
  The events of a list of samples: each is a mouse move followed by the animation frame
  it requested.
\<close>

fun samples :: "vec2 list \<Rightarrow> event list" where
  "samples [] = []"
| "samples ((x, y) # pts) = MouseMove x y # AnimationFrame # samples pts"

section \<open>Invariants\<close>

text \<open>
  Outside a drag the committed and the current orientation are the same.
\<close>

definition idle_agree :: "state \<Rightarrow> bool" where
  "idle_agree s \<longleftrightarrow> (drag s = None \<longrightarrow> q0 s = q s)"

text \<open>
  A rectangle on which the method of the controller divides by no zero: the azimuth and
  elevation method and the two trackball methods divide by the smaller side, the
  projecting methods by the larger side minus one and by \<open>ballsize\<close>.
\<close>

definition viewport_ok :: "opts \<Rightarrow> DOMRect \<Rightarrow> bool" where
  "viewport_ok o1 b \<longleftrightarrow>
     (if rotationMethod o1 = Some ''azel'' \<or> rotationMethod o1 = Some ''trackball''
         \<or> rotationMethod o1 = Some ''trackball_no_precession''
      then min (width b) (height b) \<noteq> 0
      else if projecting (rotationMethod o1) \<or> rotationMethod o1 = Some ''bell''
      then max (width b) (height b) \<noteq> 1 \<and> ballsize o1 \<noteq> 0
      else True)"

text \<open>
  A state from which the next sample computes finite numbers: an active drag was started
  on a rectangle as above (with a start vector when the method projects), and the start
  angles of \<open>'azel'\<close> hold numbers, as they do after construction. A mouse-down keeps
  this when it happens on such a rectangle.
\<close>

definition drag_ok :: "state \<Rightarrow> bool" where
  "drag_ok s \<longleftrightarrow>
     (case drag s of
        None \<Rightarrow> True
      | Some d \<Rightarrow>
          viewport_ok (opts s) (box d)
          \<and> (projecting (rotationMethod (opts s)) \<or> rotationMethod (opts s) = Some ''bell''
               \<longrightarrow> startVector d \<noteq> None))"

definition finite_ok :: "state \<Rightarrow> bool" where
  "finite_ok s \<longleftrightarrow>
     (rotationMethod (opts s) = Some ''azel''
        \<longrightarrow> azimuth_start s \<noteq> None \<and> elevation_start s \<noteq> None)
     \<and> drag_ok s"

fun event_ok :: "opts \<Rightarrow> event \<Rightarrow> bool" where
  "event_ok o1 (MouseDown x y b) = viewport_ok o1 b"
| "event_ok o1 e = True"

text \<open>
  \<open>#azimuth\<close> and \<open>#elevation\<close> have no initialiser, and \<open>#handleMouseUp\<close>
  copies them into the start angles. \<open>commits_defined\<close> holds of a run in which,
  for \<open>'azel'\<close>, no drag ends while one of the two is still \<open>undefined\<close>.
\<close>

definition commit_defined :: "state \<Rightarrow> event \<Rightarrow> bool" where
  "commit_defined s e \<longleftrightarrow>
     (e = MouseUp \<and> drag s \<noteq> None \<and> rotationMethod (opts s) = Some ''azel''
        \<longrightarrow> azimuth s \<noteq> None \<and> elevation s \<noteq> None)"

fun commits_defined :: "state \<Rightarrow> event list \<Rightarrow> bool" where
  "commits_defined s [] = True"
| "commits_defined s (e # es) =
     (commit_defined s e
      \<and> (case step s e of Inl err \<Rightarrow> True | Inr s1 \<Rightarrow> commits_defined s1 es))"

section \<open>Concrete inputs\<close>

text \<open>
  Constructor arguments, rectangles and states at which the closed theorems evaluate the
  model.
\<close>

definition no_args :: opts_arg where
  "no_args = \<lparr>arg_rotationMethod = None, arg_clampElevation = None, arg_border = None,
              arg_ballsize = None, arg_q = None\<rparr>"

definition method_args :: "string \<Rightarrow> opts_arg" where
  "method_args m = no_args\<lparr>arg_rotationMethod := Some m\<rparr>"

definition border_args :: "string \<Rightarrow> real \<Rightarrow> opts_arg" where
  "border_args m bo = no_args\<lparr>arg_rotationMethod := Some m, arg_border := Some bo\<rparr>"

definition viewport400 :: DOMRect where
  "viewport400 = \<lparr>rect_x = 0, rect_y = 0, width = 400, height = 400\<rparr>"

definition flat_viewport :: DOMRect where
  "flat_viewport = \<lparr>rect_x = 0, rect_y = 0, width = 400, height = 0\<rparr>"

definition unit_box :: DOMRect where
  "unit_box = \<lparr>rect_x = 0, rect_y = 0, width = 3, height = 3\<rparr>"

definition sphere_opts :: opts where
  "sphere_opts = \<lparr>rotationMethod = Some ''sphere'', clampElevation = False, border = 0,
                  ballsize = 1\<rparr>"

definition dragging :: "state \<Rightarrow> vec3 option \<Rightarrow> state" where
  "dragging s v = s\<lparr>drag := Some \<lparr>startVector = v, startPosition = (200, 200), box = viewport400\<rparr>\<rparr>"

section \<open>Lemmas\<close>

subsection \<open>Quaternion algebra\<close>

lemma normSq_mul: "normSq (mul p r) = normSq p * normSq r"
  by (cases p; cases r) (simp add: normSq_def algebra_simps)

lemma isUnit_mul: "isUnit p \<Longrightarrow> isUnit r \<Longrightarrow> isUnit (mul p r)"
  by (simp add: isUnit_def normSq_mul)

lemma mul_assoc_q: "mul (mul a b) c = mul a (mul b c)"
  by (cases a; cases b; cases c) (simp add: algebra_simps)

lemma mul_ONE_left: "mul ONE p = p"
  by (cases p) (simp add: ONE_def)

lemma mul_conjugate_left: "isUnit p \<Longrightarrow> mul (conjugate p) p = ONE"
  by (cases p) (simp add: conjugate_def ONE_def isUnit_def normSq_def algebra_simps)

lemma isUnit_ONE: "isUnit ONE"
  by (simp add: isUnit_def normSq_def ONE_def)

lemma euler_sq:
  assumes "(ca::real) * ca + sa * sa = 1" "(cb::real) * cb + sb * sb = 1"
  shows "ca * cb * (ca * cb) + sa * cb * (sa * cb) + sb * ca * (sb * ca)
         + sa * sb * (sa * sb) = 1"
proof -
  have "ca * cb * (ca * cb) + sa * cb * (sa * cb) + sb * ca * (sb * ca) + sa * sb * (sa * sb)
        = (ca * ca + sa * sa) * (cb * cb + sb * sb)"
    by (simp add: algebra_simps)
  then show ?thesis using assms by simp
qed

lemma cos_sin_sq: "cos (t::real) * cos t + sin t * sin t = 1"
  using sin_cos_squared_add2 [of t] by (simp add: power2_eq_square)

lemma isUnit_fromEuler: "isUnit (fromEuler a b 0)"
  using euler_sq [OF cos_sin_sq [of "a / 2"] cos_sin_sq [of "b / 2"]]
  by (simp add: fromEuler_def normSq_def Let_def isUnit_def)

lemma div_sq3:
  assumes "(l::real) * l = a * a + b * b + c * c + d * d" "l \<noteq> 0"
  shows "(a / l) * (a / l) + (b / l) * (b / l) + (c / l) * (c / l) + (d / l) * (d / l) = 1"
proof -
  have "(a / l) * (a / l) + (b / l) * (b / l) + (c / l) * (c / l) + (d / l) * (d / l)
        = (a * a + b * b + c * c + d * d) / (l * l)"
    by (simp add: add_divide_distrib)
  also have "\<dots> = 1" using assms by (metis divide_self mult_eq_0_iff)
  finally show ?thesis .
qed

lemma sq4_nonneg: "0 \<le> (w::real) * w + x * x + y * y + z * z"
  by (simp add: add_nonneg_nonneg)

lemma isUnit_newNormalized:
  assumes "w * w + x * x + y * y + z * z \<noteq> 0"
  shows "isUnit (newNormalized w x y z)"
proof -
  let ?n = "w * w + x * x + y * y + z * z"
  define l where "l = sqrt ?n"
  have pos: "0 < ?n" using assms sq4_nonneg [of w x y z] by linarith
  have ll: "l * l = ?n" and l0: "l \<noteq> 0" using pos by (simp_all add: l_def)
  have "normSq (newNormalized w x y z)
        = (w / l) * (w / l) + (x / l) * (x / l) + (y / l) * (y / l) + (z / l) * (z / l)"
    by (simp add: newNormalized_def normSq_def Let_def l_def)
  then show ?thesis using div_sq3 [OF ll l0] by (simp add: isUnit_def)
qed

subsection \<open>The rotation between two vectors\<close>

lemma fromVectors_arc: "fromVectors u v = arc (normalize3 u) (normalize3 v)"
  by (cases u; cases v) (simp add: fromVectors_def arc_def normalize3_def Let_def)

lemma sq3_zero: "(a::real) * a + b * b + c * c = 0 \<longleftrightarrow> a = 0 \<and> b = 0 \<and> c = 0"
proof
  assume h: "a * a + b * b + c * c = 0"
  have "0 \<le> a * a" "0 \<le> b * b" "0 \<le> c * c" by simp_all
  with h have "a * a = 0" "b * b = 0" "c * c = 0" by linarith+
  then show "a = 0 \<and> b = 0 \<and> c = 0" by simp
qed simp

lemma normalize3_cases:
  assumes "normalize3 u = (x, y, z)"
  shows "x * x + y * y + z * z = 1 \<or> (x = 0 \<and> y = 0 \<and> z = 0)"
proof -
  obtain a b c where u: "u = (a, b, c)" by (cases u) auto
  let ?n = "a * a + b * b + c * c"
  define l where "l = sqrt ?n"
  show ?thesis
  proof (cases "l > 0")
    case True
    then have pos: "0 < ?n" by (simp add: l_def)
    have ll: "l * l = a * a + b * b + c * c + 0 * 0" using pos by (simp add: l_def)
    have l0: "l \<noteq> 0" using True by simp
    have "x = a / l" "y = b / l" "z = c / l"
      using assms True by (simp_all add: u normalize3_def Let_def l_def)
    then show ?thesis using div_sq3 [OF ll l0] by simp
  next
    case False
    then have "?n \<le> 0" by (simp add: l_def)
    moreover have "0 \<le> ?n" by (simp add: add_nonneg_nonneg)
    ultimately have "?n = 0" by linarith
    then have "a = 0 \<and> b = 0 \<and> c = 0" by (simp only: sq3_zero)
    then show ?thesis using assms by (simp add: u normalize3_def Let_def)
  qed
qed

lemma unit_or_zero_normalize3: "unit_or_zero (normalize3 u)"
  using normalize3_cases [of u] by (cases "normalize3 u") (auto simp: unit_or_zero_def)

lemma conjugate_newNormalized:
  "conjugate (newNormalized w x y z) = newNormalized w (- x) (- y) (- z)"
  by (simp add: conjugate_def newNormalized_def Let_def)

lemma antiparallel_neg:
  assumes u: "ux * ux + uy * uy + uz * uz = (1::real)"
      and v: "vx * vx + vy * vy + vz * vz = 1"
      and d: "1 + (ux * vx + uy * vy + uz * vz) \<le> 0"
  shows "vx = - ux \<and> vy = - uy \<and> vz = - uz"
proof -
  have "(ux + vx) * (ux + vx) + (uy + vy) * (uy + vy) + (uz + vz) * (uz + vz)
        = (ux * ux + uy * uy + uz * uz) + (vx * vx + vy * vy + vz * vz)
          + 2 * (ux * vx + uy * vy + uz * vz)"
    by (simp add: algebra_simps)
  also have "\<dots> = 2 * (1 + (ux * vx + uy * vy + uz * vz))" by (simp add: u v)
  also have "\<dots> \<le> 0" using d by (simp only: mult_le_0_iff) simp
  finally have le: "(ux + vx) * (ux + vx) + (uy + vy) * (uy + vy) + (uz + vz) * (uz + vz) \<le> 0" .
  have "0 \<le> (ux + vx) * (ux + vx) + (uy + vy) * (uy + vy) + (uz + vz) * (uz + vz)"
    by (simp add: add_nonneg_nonneg)
  with le have "(ux + vx) * (ux + vx) + (uy + vy) * (uy + vy) + (uz + vz) * (uz + vz) = 0"
    by linarith
  then have "ux + vx = 0 \<and> uy + vy = 0 \<and> uz + vz = 0" by (simp only: sq3_zero)
  then show ?thesis by linarith
qed

lemma isUnit_arc:
  assumes "unit_or_zero u"
  shows "isUnit (arc u v)"
proof -
  obtain ux uy uz where u: "u = (ux, uy, uz)" by (cases u) auto
  obtain vx vy vz where v: "v = (vx, vy, vz)" by (cases v) auto
  let ?d = "ux * vx + uy * vy + uz * vz"
  consider (par) "?d \<ge> 1" | (anti) "\<not> ?d \<ge> 1" "1 + ?d \<le> 0" | (gen) "\<not> ?d \<ge> 1" "\<not> 1 + ?d \<le> 0"
    by blast
  then show ?thesis
  proof cases
    case par
    then show ?thesis by (simp add: arc_def u v isUnit_ONE)
  next
    case anti
    have nz: "\<not> (ux = 0 \<and> uy = 0 \<and> uz = 0)" using anti by auto
    then have one: "ux * ux + uy * uy + uz * uz = 1"
      using assms by (auto simp: unit_or_zero_def u)
    show ?thesis
    proof (cases "\<bar>ux\<bar> > \<bar>uz\<bar>")
      case True
      then have "ux \<noteq> 0" by auto
      then have "0 * 0 + (- uy) * (- uy) + ux * ux + 0 * 0 \<noteq> (0::real)"
        using sq3_zero [of uy ux 0] by auto
      from isUnit_newNormalized [OF this] show ?thesis
        using anti True by (simp add: arc_def u v)
    next
      case False
      have "\<not> (uz = 0 \<and> uy = 0)"
      proof
        assume "uz = 0 \<and> uy = 0"
        then show False using False one by auto
      qed
      then have "0 * 0 + 0 * 0 + (- uz) * (- uz) + uy * uy \<noteq> (0::real)"
        using sq3_zero [of uz uy 0] by auto
      from isUnit_newNormalized [OF this] show ?thesis
        using anti False by (simp add: arc_def u v)
    qed
  next
    case gen
    let ?a = "uy * vz - uz * vy" and ?b = "uz * vx - ux * vz" and ?c = "ux * vy - uy * vx"
    have "0 < (1 + ?d) * (1 + ?d)" using gen by (simp add: zero_less_mult_iff)
    moreover have "0 \<le> ?a * ?a + ?b * ?b + ?c * ?c" by (simp add: add_nonneg_nonneg)
    ultimately have "(1 + ?d) * (1 + ?d) + ?a * ?a + ?b * ?b + ?c * ?c \<noteq> 0" by linarith
    from isUnit_newNormalized [OF this] show ?thesis
      using gen by (simp add: arc_def u v)
  qed
qed

lemma isUnit_fromVectors: "isUnit (fromVectors u v)"
  by (simp add: fromVectors_arc isUnit_arc unit_or_zero_normalize3)

lemma arc_swap:
  assumes "unit_or_zero u" "unit_or_zero v"
  shows "arc v u = conjugate (arc u v)"
proof -
  obtain ux uy uz where u: "u = (ux, uy, uz)" by (cases u) auto
  obtain vx vy vz where v: "v = (vx, vy, vz)" by (cases v) auto
  let ?d = "ux * vx + uy * vy + uz * vz"
  have dsym: "vx * ux + vy * uy + vz * uz = ?d" by (simp add: mult.commute)
  consider (par) "?d \<ge> 1" | (anti) "\<not> ?d \<ge> 1" "1 + ?d \<le> 0" | (gen) "\<not> ?d \<ge> 1" "\<not> 1 + ?d \<le> 0"
    by blast
  then show ?thesis
  proof cases
    case par
    then show ?thesis by (simp add: arc_def u v dsym) (simp add: ONE_def conjugate_def)
  next
    case anti
    have "\<not> (ux = 0 \<and> uy = 0 \<and> uz = 0)" "\<not> (vx = 0 \<and> vy = 0 \<and> vz = 0)" using anti by auto
    then have "ux * ux + uy * uy + uz * uz = 1" "vx * vx + vy * vy + vz * vz = 1"
      using assms by (auto simp: unit_or_zero_def u v)
    from antiparallel_neg [OF this anti(2)]
    have neg: "vx = - ux" "vy = - uy" "vz = - uz" by simp_all
    show ?thesis using anti
      by (simp add: arc_def u v dsym conjugate_newNormalized) (simp add: neg)
  next
    case gen
    have "newNormalized (1 + ?d) (vy * uz - vz * uy) (vz * ux - vx * uz) (vx * uy - vy * ux)
          = newNormalized (1 + ?d) (- (uy * vz - uz * vy)) (- (uz * vx - ux * vz))
              (- (ux * vy - uy * vx))"
      by (simp add: mult.commute)
    then show ?thesis using gen
      by (simp add: arc_def u v dsym conjugate_newNormalized)
  qed
qed

lemma fromVectors_swap: "fromVectors v u = conjugate (fromVectors u v)"
  unfolding fromVectors_arc
  by (rule arc_swap) (rule unit_or_zero_normalize3)+

lemma fromVectors_round_trip: "mul (fromVectors v u) (mul (fromVectors u v) p) = p"
proof -
  have "mul (fromVectors v u) (mul (fromVectors u v) p)
        = mul (mul (conjugate (fromVectors u v)) (fromVectors u v)) p"
    by (simp only: fromVectors_swap [of v u] mul_assoc_q)
  then show ?thesis
    by (simp add: mul_conjugate_left isUnit_fromVectors mul_ONE_left)
qed

subsection \<open>Arithmetic of the projection\<close>

lemma ri_le_one:
  assumes "0 < (ra::real)"
  shows "2 / (ra + 1 / ra) \<le> 1" and "2 / (ra + 1 / ra) = 2 * ra / (ra * ra + 1)"
proof -
  have eq: "ra + 1 / ra = (ra * ra + 1) / ra" using assms by (simp add: field_simps)
  show e2: "2 / (ra + 1 / ra) = 2 * ra / (ra * ra + 1)" by (simp add: eq)
  have "0 \<le> (ra - 1) * (ra - 1)" by simp
  then have "2 * ra \<le> ra * ra + 1" by (simp add: algebra_simps)
  moreover have "0 < ra * ra + 1" using assms by (simp add: add_pos_pos)
  ultimately show "2 / (ra + 1 / ra) \<le> 1" by (simp add: e2)
qed

lemma ri_pos_imp:
  assumes "(d::real) < (if ra = 0 then 0 else 2 / (ra + 1 / ra))" "0 \<le> d"
  shows "0 < ra"
proof (rule ccontr)
  assume "\<not> 0 < ra"
  then have neg: "ra \<le> 0" by simp
  show False
  proof (cases "ra = 0")
    case True
    then show ?thesis using assms by simp
  next
    case False
    then have "ra < 0" using neg by simp
    then have "ra + 1 / ra < 0" by (simp add: add_neg_neg)
    then have "2 / (ra + 1 / ra) < 0" by (intro divide_pos_neg) simp_all
    moreover have "d < 2 / (ra + 1 / ra)" using assms(1) False by simp
    ultimately show ?thesis using assms(2) by linarith
  qed
qed

lemma cap_arg_nonneg:
  assumes "sqrt d2 < (if ra = 0 then 0 else 2 / (ra + 1 / ra))" "0 \<le> (d2::real)"
  shows "0 < 1 - d2"
proof -
  have d0: "0 \<le> sqrt d2" using assms(2) by simp
  have ra: "0 < ra" using ri_pos_imp [OF assms(1) d0] .
  have "sqrt d2 < 2 / (ra + 1 / ra)" using assms(1) ra by simp
  then have "sqrt d2 < 1" using ri_le_one(1) [OF ra] by linarith
  then have "sqrt d2 * sqrt d2 < 1 * 1" using d0 by (intro mult_strict_mono') simp_all
  then show ?thesis using assms(2) by simp
qed

lemma skirt_arg_nonneg:
  fixes ra d bo :: real
  assumes ra_def: "ra = 1 + bo"
      and lo: "\<not> d < (if ra = 0 then 0 else 2 / (ra + 1 / ra))"
      and hi: "d < ra" and d0: "0 \<le> d"
  shows "0 \<le> (bo * (1 + bo / 2) + (ra - d)) * (bo * (1 + bo / 2) - (ra - d))"
proof -
  have ra: "0 < ra" using hi d0 by simp
  have den: "0 < ra * ra + 1" using ra by (simp add: add_pos_pos)
  have ri: "2 * ra / (ra * ra + 1) \<le> d" using lo ra ri_le_one(2) [OF ra] by simp
  then have "2 * ra / (ra * ra + 1) < ra" using hi by simp
  then have "2 * ra < ra * (ra * ra + 1)" using den by (simp add: pos_divide_less_eq)
  then have "2 < ra * ra + 1" using ra by simp
  then have ra1: "1 < ra"
    by (metis add_less_cancel_right less_1_mult linorder_not_less mult_le_one one_add_one
        order_less_imp_le ra)
  define a where "a = bo * (1 + bo / 2)"
  have a_eq: "a = (ra * ra - 1) / 2" by (simp add: a_def ra_def algebra_simps)
  have bo: "0 < bo" using ra1 ra_def by simp
  have a0: "0 < a" using bo by (simp add: a_def add_pos_pos)
  have "ra - d \<le> ra - 2 * ra / (ra * ra + 1)" using ri by simp
  also have "\<dots> = ra * (ra * ra - 1) / (ra * ra + 1)" using den by (simp add: field_simps)
  also have "\<dots> = a * (2 * ra / (ra * ra + 1))" by (simp add: a_eq)
  also have "\<dots> \<le> a * 1"
    using a0 ri_le_one(1) [OF ra] ri_le_one(2) [OF ra] by (intro mult_left_mono) simp_all
  finally have dr: "ra - d \<le> a" by simp
  have "0 < ra - d" using hi by simp
  then have "0 \<le> (a + (ra - d)) * (a - (ra - d))"
    using dr a0 by (intro mult_nonneg_nonneg) simp_all
  then show ?thesis by (simp add: a_def)
qed

lemma bell_far_dist_pos:
  assumes "\<not> (d::real) < 1 / sqrt 2"
  shows "0 < d"
proof -
  have "0 < 1 / sqrt 2" by simp
  then show ?thesis using assms by linarith
qed

lemma bell_cap_arg_nonneg:
  assumes "sqrt d2 < 1 / sqrt 2" "0 \<le> (d2::real)"
  shows "0 < 1 - d2"
proof -
  have "1 / sqrt 2 < (1::real)" by simp
  then have "sqrt d2 < 1" using assms(1) by linarith
  moreover have "0 \<le> sqrt d2" using assms(2) by simp
  ultimately have "sqrt d2 * sqrt d2 < 1 * 1" by (intro mult_strict_mono') simp_all
  then show ?thesis using assms(2) by simp
qed

subsection \<open>The increment of the trackball methods\<close>

lemma axis_len_pos:
  assumes "(k0::real) \<noteq> 0 \<or> k1 \<noteq> 0"
  shows "0 < k0 * k0 + k1 * k1 + 0 * 0"
proof -
  have "k0 * k0 + k1 * k1 + 0 * 0 \<noteq> 0" using sq3_zero [of k0 k1 0] assms by blast
  moreover have "0 \<le> k0 * k0 + k1 * k1 + 0 * 0" by (intro add_nonneg_nonneg) simp_all
  ultimately show ?thesis by linarith
qed

lemma axis_angle_unit:
  assumes "(n::real) * n = k0 * k0 + k1 * k1 + 0 * 0" "n \<noteq> 0"
  shows "c * c + k0 * (s / n) * (k0 * (s / n)) + k1 * (s / n) * (k1 * (s / n))
           + 0 * (s / n) * (0 * (s / n))
         = c * c + s * s"
proof -
  have nn: "n * n \<noteq> 0" using assms(2) by simp
  have "k0 * (s / n) * (k0 * (s / n)) + k1 * (s / n) * (k1 * (s / n))
        = (s * s) * ((k0 * k0 + k1 * k1 + 0 * 0) / (n * n))"
    by (simp add: algebra_simps add_divide_distrib)
  also have "\<dots> = (s * s) * ((n * n) / (n * n))" by (simp only: assms(1))
  also have "\<dots> = s * s" using nn by simp
  finally show ?thesis by simp
qed

lemma trackball_axis_nonzero:
  assumes "minDim \<noteq> 0" "deltaX \<noteq> 0 \<or> deltaY \<noteq> 0"
  shows "sqrt (deltaY / minDim * (deltaY / minDim) + deltaX / minDim * (deltaX / minDim) + 0 * 0) \<noteq> 0"
proof -
  have "deltaY / minDim \<noteq> 0 \<or> deltaX / minDim \<noteq> 0" using assms by auto
  from axis_len_pos [OF this] show ?thesis by (simp only: real_sqrt_eq_zero_cancel_iff)
qed

lemma updateTrackball_eq:
  assumes "drag s = Some d" "min (height (box d)) (width (box d)) \<noteq> 0"
          "deltaX \<noteq> 0 \<or> deltaY \<noteq> 0"
  shows "updateTrackball s deltaX deltaY clientX clientY =
           Inr (if rotationMethod (opts s) = Some ''trackball''
                then s\<lparr>q := mul (trackball_dq deltaX deltaY (min (height (box d)) (width (box d)))) (q0 s),
                       q0 := mul (trackball_dq deltaX deltaY (min (height (box d)) (width (box d)))) (q0 s),
                       drag := Some (d\<lparr>startPosition := (clientX, clientY)\<rparr>)\<rparr>
                else s\<lparr>q := mul (trackball_dq deltaX deltaY (min (height (box d)) (width (box d)))) (q0 s)\<rparr>)"
  unfolding updateTrackball_def trackball_dq_def Let_def
  by (simp only: assms(1) option.case assms(2) trackball_axis_nonzero [OF assms(2,3)] if_False)
     simp

lemma isUnit_trackball_dq:
  assumes "minDim \<noteq> 0" "deltaX \<noteq> 0 \<or> deltaY \<noteq> 0"
  shows "isUnit (trackball_dq deltaX deltaY minDim)"
proof -
  define k0 k1 where "k0 = deltaY / minDim" and "k1 = deltaX / minDim"
  define n where "n = sqrt (k0 * k0 + k1 * k1 + 0 * 0)"
  have "k0 \<noteq> 0 \<or> k1 \<noteq> 0" using assms by (auto simp: k0_def k1_def)
  then have pos: "0 < k0 * k0 + k1 * k1 + 0 * 0" by (rule axis_len_pos)
  then have nn: "n * n = k0 * k0 + k1 * k1 + 0 * 0" and n0: "n \<noteq> 0"
    unfolding n_def by (simp_all only: real_sqrt_mult_self abs_of_pos real_sqrt_eq_zero_cancel_iff)
  have "normSq (trackball_dq deltaX deltaY minDim)
        = cos (n * pi / 2) * cos (n * pi / 2)
          + k0 * (sin (n * pi / 2) / n) * (k0 * (sin (n * pi / 2) / n))
          + k1 * (sin (n * pi / 2) / n) * (k1 * (sin (n * pi / 2) / n))
          + 0 * (sin (n * pi / 2) / n) * (0 * (sin (n * pi / 2) / n))"
    by (simp only: trackball_dq_def Let_def normSq_def Quaternion.sel k0_def k1_def n_def)
  also have "\<dots> = cos (n * pi / 2) * cos (n * pi / 2) + sin (n * pi / 2) * sin (n * pi / 2)"
    by (rule axis_angle_unit [OF nn n0])
  finally show ?thesis by (simp only: isUnit_def cos_sin_sq)
qed

lemma trackball_dq_neg:
  "trackball_dq (- deltaX) (- deltaY) minDim = conjugate (trackball_dq deltaX deltaY minDim)"
  by (simp add: trackball_dq_def Let_def conjugate_def)

lemma trackball_dq_horizontal:
  assumes "0 < minDim" "0 < deltaX"
  shows "trackball_dq deltaX 0 minDim
         = Quaternion (cos (deltaX / minDim * pi / 2)) 0 (sin (deltaX / minDim * pi / 2)) 0"
proof -
  define k where "k = deltaX / minDim"
  have pos: "0 < k" using assms by (simp add: k_def)
  then have n: "sqrt (0 / minDim * (0 / minDim) + k * k + 0 * 0) = k" by simp
  have "Quaternion (cos (k * pi / 2)) (0 / minDim * (sin (k * pi / 2) / k))
          (k * (sin (k * pi / 2) / k)) (0 * (sin (k * pi / 2) / k))
        = Quaternion (cos (k * pi / 2)) 0 (sin (k * pi / 2)) 0"
    using pos by simp
  then show ?thesis
    unfolding trackball_dq_def Let_def k_def [symmetric] n .
qed

subsection \<open>The projection is defined\<close>

lemma dist2_nonneg: "0 \<le> ((a::real) * a + b * b) * (r * r)"
proof -
  have "0 \<le> a * a + b * b" by (simp add: add_nonneg_nonneg)
  moreover have "0 \<le> r * r" by simp
  ultimately show ?thesis by (rule mult_nonneg_nonneg)
qed

lemma project_undefined:
  assumes "\<not> projecting (rotationMethod o1)" "rotationMethod o1 \<noteq> Some ''bell''"
  shows "project o1 x y b = Inr None"
  using assms by (simp add: project_def Let_def)

lemma project_sphere_family:
  assumes m: "projecting (rotationMethod o1)"
      and v: "max (width b) (height b) - 1 \<noteq> 0" "ballsize o1 \<noteq> 0"
  shows "\<exists>z. project o1 x y b = Inr (Some (px o1 x b, py o1 y b, z))"
proof -
  define ra where "ra = 1 + border o1"
  define d2 where "d2 = (px o1 x b * px o1 x b + py o1 y b * py o1 y b) * (ra * ra)"
  define ri where "ri = (if ra = 0 then 0 else 2 / (ra + 1 / ra))"
  have d2: "0 \<le> d2" unfolding d2_def by (rule dist2_nonneg)
  have d0: "0 \<le> sqrt d2" using d2 by simp
  have cap: "sqrt d2 < ri \<Longrightarrow> \<not> 1 - d2 < 0"
    using cap_arg_nonneg [of d2 ra] d2 by (simp add: ri_def)
  have skirt: "\<not> sqrt d2 < ri \<Longrightarrow> sqrt d2 < ra \<Longrightarrow>
      \<not> (border o1 * (1 + border o1 / 2) + (ra - sqrt d2)) * (border o1 * (1 + border o1 / 2) - (ra - sqrt d2)) < 0"
  proof -
    assume a: "\<not> sqrt d2 < ri" "sqrt d2 < ra"
    have "0 \<le> (border o1 * (1 + border o1 / 2) + (ra - sqrt d2))
               * (border o1 * (1 + border o1 / 2) - (ra - sqrt d2))"
      by (rule skirt_arg_nonneg [OF ra_def a(1) [unfolded ri_def] a(2) d0])
    then show ?thesis by linarith
  qed
  show ?thesis
    using m v cap skirt
    unfolding project_def Let_def ra_def [symmetric] d2_def [symmetric] ri_def [symmetric]
    by auto
qed

lemma project_bell:
  assumes m: "rotationMethod o1 = Some ''bell''"
      and v: "max (width b) (height b) - 1 \<noteq> 0" "ballsize o1 \<noteq> 0"
  shows "\<exists>z. project o1 x y b = Inr (Some (px o1 x b, py o1 y b, z))"
proof -
  define ra where "ra = 1 + border o1"
  define d2 where "d2 = (px o1 x b * px o1 x b + py o1 y b * py o1 y b) * (ra * ra)"
  have d2: "0 \<le> d2" unfolding d2_def by (rule dist2_nonneg)
  have cap: "sqrt d2 < 1 / sqrt 2 \<Longrightarrow> \<not> 1 - d2 < 0"
    using bell_cap_arg_nonneg [of d2] d2 by simp
  have far: "\<not> sqrt d2 < 1 / sqrt 2 \<Longrightarrow> sqrt d2 \<noteq> 0"
    using bell_far_dist_pos [of "sqrt d2"] by simp
  have np: "\<not> projecting (rotationMethod o1)" using m by (simp add: projecting_def)
  show ?thesis
    using m v cap far np
    unfolding project_def Let_def ra_def [symmetric] d2_def [symmetric]
    by auto
qed

lemma project_defined:
  assumes "projecting (rotationMethod o1) \<or> rotationMethod o1 = Some ''bell''"
      and "max (width b) (height b) \<noteq> 1" "ballsize o1 \<noteq> 0"
  shows "\<exists>v. project o1 x y b = Inr (Some v)"
  using assms project_sphere_family [of o1 b x y] project_bell [of o1 b x y]
  by auto

subsection \<open>What the events preserve\<close>

lemma updateAzEl_fields:
  assumes "updateAzEl s dx dy = Inr s1"
  shows "opts s1 = opts s \<and> drag s1 = drag s \<and> q0 s1 = q0 s \<and> drawn s1 = drawn s"
  using assms
  by (auto simp: updateAzEl_def Let_def split: option.splits if_splits)

lemma updateTrackball_fields:
  assumes "updateTrackball s dx dy cx cy = Inr s1"
  shows "opts s1 = opts s \<and> (drag s \<noteq> None \<longrightarrow> drag s1 \<noteq> None) \<and> drawn s1 = drawn s"
  using assms
  by (auto simp: updateTrackball_def Let_def split: option.splits if_splits)

lemma updateSphericalMethods_fields:
  assumes "updateSphericalMethods s cx cy = Inr s1"
  shows "opts s1 = opts s \<and> (drag s \<noteq> None \<longrightarrow> drag s1 \<noteq> None) \<and> drawn s1 = drawn s"
  using assms
  by (auto simp: updateSphericalMethods_def Let_def split: option.splits if_splits sum.splits)

lemma updateRotation_fields:
  assumes "updateRotation s cx cy = Inr s1"
  shows "opts s1 = opts s \<and> (drag s \<noteq> None \<longrightarrow> drag s1 \<noteq> None) \<and> drawn s1 = drawn s"
proof -
  from assms obtain d where d: "drag s = Some d"
    by (auto simp: updateRotation_def split: option.splits)
  show ?thesis
    using assms d updateAzEl_fields [of s _ _ s1] updateTrackball_fields [of s _ _ cx cy s1]
      updateSphericalMethods_fields [of s cx cy s1]
    by (auto simp: updateRotation_def Let_def split: if_splits)
qed

lemma update_fields:
  assumes "update s = Inr s1"
  shows "opts s1 = opts s \<and> (drag s \<noteq> None \<longrightarrow> drag s1 \<noteq> None)
         \<and> (drag s = None \<longrightarrow> drag s1 = None \<and> q0 s1 = q0 s \<and> q s1 = q s)"
  using assms updateRotation_fields [of s _ _ ]
  by (auto simp: update_def draw_def split: option.splits if_splits sum.splits prod.splits)

lemma step_opts:
  assumes "step s e = Inr s1"
  shows "opts s1 = opts s"
proof (cases e)
  case (MouseDown x y b)
  then show ?thesis using assms by (auto simp: handleMouseDown_def draw_def split: sum.splits)
next
  case (MouseMove x y)
  then show ?thesis using assms by (auto simp: handleMouseMove_def)
next
  case AnimationFrame
  then show ?thesis using assms update_fields [of s s1]
    by (auto split: if_splits sum.splits error.splits)
next
  case MouseUp
  then show ?thesis using assms by (auto simp: handleMouseUp_def draw_def)
next
  case (Rotate p)
  then show ?thesis using assms by (auto simp: rotate_def draw_def)
next
  case Reset
  then show ?thesis using assms by (auto simp: reset_def draw_def)
qed

lemma run_opts:
  assumes "run s evs = Inr s1"
  shows "opts s1 = opts s"
  using assms
proof (induction evs arbitrary: s)
  case Nil
  then show ?case by simp
next
  case (Cons e evs)
  then obtain s2 where s2: "step s e = Inr s2" and r: "run s2 evs = Inr s1"
    by (auto split: sum.splits)
  from Cons.IH [OF r] step_opts [OF s2] show ?case by simp
qed

lemma step_idle_agree:
  assumes "step s e = Inr s1" "idle_agree s"
  shows "idle_agree s1"
proof (cases e)
  case (MouseDown x y b)
  then show ?thesis using assms
    by (auto simp: handleMouseDown_def draw_def idle_agree_def split: sum.splits)
next
  case (MouseMove x y)
  then show ?thesis using assms by (auto simp: handleMouseMove_def idle_agree_def)
next
  case AnimationFrame
  then show ?thesis using assms update_fields [of s s1]
    by (auto simp: idle_agree_def split: if_splits sum.splits error.splits)
next
  case MouseUp
  then show ?thesis using assms by (auto simp: handleMouseUp_def draw_def idle_agree_def)
next
  case (Rotate p)
  then show ?thesis using assms by (auto simp: rotate_def draw_def idle_agree_def)
next
  case Reset
  then show ?thesis using assms by (auto simp: reset_def draw_def idle_agree_def)
qed

lemma run_idle_agree:
  assumes "run s evs = Inr s1" "idle_agree s"
  shows "idle_agree s1"
  using assms
proof (induction evs arbitrary: s)
  case Nil
  then show ?case by simp
next
  case (Cons e evs)
  then obtain s2 where s2: "step s e = Inr s2" and r: "run s2 evs = Inr s1"
    by (auto split: sum.splits)
  from Cons.IH [OF r step_idle_agree [OF s2 Cons.prems(2)]] show ?case .
qed

lemma constructor_fields:
  "drag (constructor a) = None" "q0 (constructor a) = q (constructor a)"
  "q (constructor a) = default_to ONE (arg_q a)"
  "opts (constructor a) =
     \<lparr>rotationMethod = arg_rotationMethod a,
      clampElevation = default_to False (arg_clampElevation a),
      border = (if arg_rotationMethod a = Some ''rounded_arcball'' then 0.5
                else default_to 0 (arg_border a)),
      ballsize = default_to 0.75 (arg_ballsize a)\<rparr>"
  by (simp_all add: constructor_def Let_def draw_def)

subsection \<open>Runs without a non-finite number\<close>

lemma projecting_not_others:
  "projecting m \<Longrightarrow> m \<noteq> Some ''azel'' \<and> m \<noteq> Some ''trackball''
      \<and> m \<noteq> Some ''trackball_no_precession'' \<and> m \<noteq> Some ''bell''"
  by (auto simp: projecting_def)

lemma handleMouseDown_finite:
  assumes "finite_ok s" "viewport_ok (opts s) b"
  shows "\<exists>s1. handleMouseDown s x y b = Inr s1 \<and> finite_ok s1 \<and> opts s1 = opts s"
proof (cases "projecting (rotationMethod (opts s)) \<or> rotationMethod (opts s) = Some ''bell''")
  case True
  then have "max (width b) (height b) \<noteq> 1 \<and> ballsize (opts s) \<noteq> 0"
    using assms(2) projecting_not_others [of "rotationMethod (opts s)"]
    by (auto simp: viewport_ok_def)
  with project_defined [OF True, of b x y]
  obtain v where "project (opts s) x y b = Inr (Some v)" by blast
  then show ?thesis using assms
    by (simp add: handleMouseDown_def draw_def finite_ok_def drag_ok_def)
next
  case False
  then have "project (opts s) x y b = Inr None" by (simp add: project_undefined)
  then show ?thesis using assms False
    by (simp add: handleMouseDown_def draw_def finite_ok_def drag_ok_def)
qed

lemma updateAzEl_finite:
  assumes "finite_ok s" "drag s = Some d" "rotationMethod (opts s) = Some ''azel''"
  shows "\<exists>s1. updateAzEl s dx dy = Inr s1 \<and> finite_ok s1 \<and> opts s1 = opts s"
proof -
  from assms obtain az0 el0 where a: "azimuth_start s = Some az0" "elevation_start s = Some el0"
    by (auto simp: finite_ok_def)
  have m: "min (width (box d)) (height (box d)) \<noteq> 0"
    using assms by (simp add: finite_ok_def drag_ok_def viewport_ok_def)
  show ?thesis using assms a m
    by (simp add: updateAzEl_def Let_def finite_ok_def drag_ok_def)
qed

lemma updateTrackball_finite:
  assumes "finite_ok s" "drag s = Some d" "dx \<noteq> 0 \<or> dy \<noteq> 0"
    "rotationMethod (opts s) = Some ''trackball'' \<or> rotationMethod (opts s) = Some ''trackball_no_precession''"
  shows "\<exists>s1. updateTrackball s dx dy cx cy = Inr s1 \<and> finite_ok s1 \<and> opts s1 = opts s"
proof -
  have m: "min (height (box d)) (width (box d)) \<noteq> 0"
    using assms by (auto simp: finite_ok_def drag_ok_def viewport_ok_def min.commute)
  show ?thesis
    using assms projecting_not_others [of "rotationMethod (opts s)"]
    by (auto simp add: updateTrackball_eq [OF assms(2) m assms(3)] finite_ok_def drag_ok_def)
qed

lemma updateSphericalMethods_finite:
  assumes "finite_ok s" "drag s = Some d"
    "projecting (rotationMethod (opts s)) \<or> rotationMethod (opts s) = Some ''bell''"
  shows "\<exists>s1. updateSphericalMethods s cx cy = Inr s1 \<and> finite_ok s1 \<and> opts s1 = opts s"
proof -
  have n: "rotationMethod (opts s) \<noteq> Some ''azel''" "rotationMethod (opts s) \<noteq> Some ''trackball''"
      "rotationMethod (opts s) \<noteq> Some ''trackball_no_precession''"
    using assms(3) by (auto simp: projecting_def)
  have vp: "max (width (box d)) (height (box d)) \<noteq> 1 \<and> ballsize (opts s) \<noteq> 0"
    using assms n by (auto simp: finite_ok_def drag_ok_def viewport_ok_def)
  with project_defined [OF assms(3), of "box d" cx cy]
  obtain v where v: "project (opts s) cx cy (box d) = Inr (Some v)" by blast
  from assms obtain u where u: "startVector d = Some u"
    by (auto simp: finite_ok_def drag_ok_def)
  show ?thesis
    using assms u v n
    by (auto simp add: updateSphericalMethods_def Let_def finite_ok_def drag_ok_def projecting_def)
qed

lemma updateSphericalMethods_unknown:
  assumes "drag s = Some d"
    "\<not> projecting (rotationMethod (opts s))" "rotationMethod (opts s) \<noteq> Some ''bell''"
  shows "updateSphericalMethods s cx cy = Inl TypeError"
  using assms by (simp add: updateSphericalMethods_def project_undefined split: option.splits)

text \<open>
  \<open>#updateRotation\<close> during a drag on a rectangle on which the method divides by no
  zero: a TypeError for a method outside the seven names, a state otherwise.
\<close>

lemma updateRotation_finite:
  assumes "finite_ok s" "drag s = Some d"
  shows "updateRotation s cx cy = Inl TypeError
         \<or> (\<exists>s1. updateRotation s cx cy = Inr s1 \<and> finite_ok s1 \<and> opts s1 = opts s)"
proof -
  let ?dx = "cx - fst (startPosition d)" and ?dy = "cy - snd (startPosition d)"
  let ?m = "rotationMethod (opts s)"
  consider (zero) "?dx = 0 \<and> ?dy = 0"
    | (azel) "\<not> (?dx = 0 \<and> ?dy = 0)" "?m = Some ''azel''"
    | (tb) "\<not> (?dx = 0 \<and> ?dy = 0)" "?m \<noteq> Some ''azel''"
           "?m = Some ''trackball'' \<or> ?m = Some ''trackball_no_precession''"
    | (sph) "\<not> (?dx = 0 \<and> ?dy = 0)" "?m \<noteq> Some ''azel''"
           "\<not> (?m = Some ''trackball'' \<or> ?m = Some ''trackball_no_precession'')"
           "projecting ?m \<or> ?m = Some ''bell''"
    | (unk) "\<not> (?dx = 0 \<and> ?dy = 0)" "?m \<noteq> Some ''azel''"
           "\<not> (?m = Some ''trackball'' \<or> ?m = Some ''trackball_no_precession'')"
           "\<not> (projecting ?m \<or> ?m = Some ''bell'')"
    by blast
  then show ?thesis
  proof cases
    case zero
    then show ?thesis using assms by (simp add: updateRotation_def)
  next
    case azel
    from updateAzEl_finite [OF assms azel(2), of ?dx ?dy] show ?thesis
      using assms(2) azel by (auto simp: updateRotation_def Let_def)
  next
    case tb
    have "?dx \<noteq> 0 \<or> ?dy \<noteq> 0" using tb(1) by blast
    from updateTrackball_finite [OF assms this tb(3), of cx cy] show ?thesis
      using assms(2) tb by (auto simp: updateRotation_def Let_def)
  next
    case sph
    from updateSphericalMethods_finite [OF assms sph(4), of cx cy] show ?thesis
      using assms(2) sph by (auto simp: updateRotation_def Let_def)
  next
    case unk
    then have "updateSphericalMethods s cx cy = Inl TypeError"
      using updateSphericalMethods_unknown [OF assms(2)] by blast
    then show ?thesis using assms(2) unk by (auto simp: updateRotation_def Let_def)
  qed
qed

lemma finite_ok_pending: "finite_ok (s\<lparr>isUpdatePending := v\<rparr>) = finite_ok s"
  by (simp add: finite_ok_def drag_ok_def split: option.splits)

lemma finite_ok_draw: "finite_ok (draw s) = finite_ok s"
  by (simp add: finite_ok_def drag_ok_def draw_def split: option.splits)

lemma frame_finite:
  assumes "finite_ok s"
  shows "\<exists>s1. step s AnimationFrame = Inr s1 \<and> finite_ok s1 \<and> opts s1 = opts s"
proof (cases "isUpdatePending s")
  case False
  then show ?thesis using assms by simp
next
  case True
  show ?thesis
  proof (cases "lastMousePosition s")
    case None
    then show ?thesis using assms True by (simp add: update_def finite_ok_pending)
  next
    case (Some pos)
    obtain cx cy where pos: "pos = (cx, cy)" by (cases pos) auto
    show ?thesis
    proof (cases "drag s")
      case None
      then show ?thesis using assms True Some pos by (simp add: update_def finite_ok_pending)
    next
      case (Some d)
      show ?thesis
      proof (cases "isInBounds cx cy (box d)")
        case False
        then show ?thesis using assms True Some \<open>lastMousePosition s = Some pos\<close> pos
          by (simp add: update_def finite_ok_pending)
      next
        case inb: True
        from updateRotation_finite [OF assms Some, of cx cy]
        show ?thesis
        proof
          assume "updateRotation s cx cy = Inl TypeError"
          then show ?thesis using assms True Some \<open>lastMousePosition s = Some pos\<close> pos inb
            by (simp add: update_def)
        next
          assume "\<exists>s1. updateRotation s cx cy = Inr s1 \<and> finite_ok s1 \<and> opts s1 = opts s"
          then obtain s1 where "updateRotation s cx cy = Inr s1" "finite_ok s1" "opts s1 = opts s"
            by blast
          then show ?thesis using True Some \<open>lastMousePosition s = Some pos\<close> pos inb
            by (simp add: update_def finite_ok_pending finite_ok_draw) (simp add: draw_def)
        qed
      qed
    qed
  qed
qed

lemma finite_ok_reset: "finite_ok (reset s)"
  by (simp add: reset_def draw_def finite_ok_def drag_ok_def)

lemma finite_ok_constructor: "finite_ok (constructor a)"
  by (simp add: constructor_def Let_def draw_def finite_ok_def drag_ok_def)

lemma step_finite:
  assumes "finite_ok s" "event_ok (opts s) e" "commit_defined s e"
  shows "\<exists>s1. step s e = Inr s1 \<and> finite_ok s1 \<and> opts s1 = opts s"
proof (cases e)
  case (MouseDown x y b)
  then show ?thesis using assms handleMouseDown_finite [of s b x y] by simp
next
  case (MouseMove x y)
  then show ?thesis using assms
    by (auto simp add: handleMouseMove_def finite_ok_def drag_ok_def split: option.splits)
next
  case AnimationFrame
  then show ?thesis using frame_finite [OF assms(1)] by simp
next
  case MouseUp
  then show ?thesis using assms
    by (auto simp add: handleMouseUp_def draw_def finite_ok_def drag_ok_def commit_defined_def
        split: option.splits)
next
  case (Rotate p)
  then show ?thesis using assms
    by (auto simp add: rotate_def draw_def finite_ok_def drag_ok_def split: option.splits)
next
  case Reset
  then show ?thesis using finite_ok_reset [of s] by (simp) (simp add: reset_def draw_def)
qed

lemma run_finite:
  assumes "finite_ok s" "\<forall>e \<in> set evs. event_ok (opts s) e" "commits_defined s evs"
  shows "\<exists>s1. run s evs = Inr s1 \<and> finite_ok s1"
  using assms
proof (induction evs arbitrary: s)
  case Nil
  then show ?case by simp
next
  case (Cons e evs)
  have c: "commit_defined s e" using Cons.prems(3) by simp
  from step_finite [of s e] Cons.prems c
  obtain s2 where s2: "step s e = Inr s2" "finite_ok s2" "opts s2 = opts s" by auto
  have "\<forall>e \<in> set evs. event_ok (opts s2) e" using Cons.prems(2) s2(3) by simp
  moreover have "commits_defined s2 evs" using Cons.prems(3) s2(1) by simp
  ultimately show ?case using Cons.IH [OF s2(2)] s2(1) by simp
qed

lemma commits_defined_not_azel:
  assumes "rotationMethod (opts s) \<noteq> Some ''azel''"
  shows "commits_defined s evs"
  using assms
proof (induction evs arbitrary: s)
  case Nil
  then show ?case by simp
next
  case (Cons e evs)
  have "commit_defined s e" using Cons.prems by (simp add: commit_defined_def)
  moreover have "commits_defined s1 evs" if "step s e = Inr s1" for s1
    using Cons.IH [of s1] step_opts [OF that] Cons.prems by simp
  ultimately show ?case by (auto split: sum.splits)
qed

subsection \<open>Unit orientations\<close>

lemma updateTrackball_unit:
  assumes "updateTrackball s dx dy cx cy = Inr s1" "isUnit (q s)" "isUnit (q0 s)"
  shows "isUnit (q s1) \<and> isUnit (q0 s1)"
proof -
  from assms(1) obtain d where d: "drag s = Some d"
    by (auto simp: updateTrackball_def split: option.splits)
  have m: "min (height (box d)) (width (box d)) \<noteq> 0"
    using assms(1) d by (auto simp: updateTrackball_def Let_def split: if_splits)
  have nz: "dx \<noteq> 0 \<or> dy \<noteq> 0"
  proof (rule ccontr)
    assume "\<not> (dx \<noteq> 0 \<or> dy \<noteq> 0)"
    then have "dx = 0" "dy = 0" by simp_all
    then show False using assms(1) d m by (simp add: updateTrackball_def Let_def)
  qed
  have u: "isUnit (mul (trackball_dq dx dy (min (height (box d)) (width (box d)))) (q0 s))"
    using assms(3) isUnit_trackball_dq [OF m nz] by (simp add: isUnit_mul)
  show ?thesis
    using assms u updateTrackball_eq [OF d m nz, of cx cy] by (auto split: if_splits)
qed

lemma updateSphericalMethods_unit:
  assumes "updateSphericalMethods s cx cy = Inr s1" "isUnit (q s)" "isUnit (q0 s)"
  shows "isUnit (q s1) \<and> isUnit (q0 s1)"
proof -
  have u1: "isUnit (mul (fromVectors u v) (q0 s))" for u v
    using assms(3) by (simp add: isUnit_mul isUnit_fromVectors)
  then have u2: "isUnit (mul (fromVectors u v) (mul (fromVectors u v) (q0 s)))" for u v
    by (simp add: isUnit_mul isUnit_fromVectors)
  show ?thesis
    using assms u1 u2
    by (auto simp add: updateSphericalMethods_def Let_def
        split: option.splits sum.splits if_splits)
qed

lemma updateAzEl_unit:
  assumes "updateAzEl s dx dy = Inr s1" "isUnit (q s)" "isUnit (q0 s)"
  shows "isUnit (q s1) \<and> isUnit (q0 s1)"
  using assms
  by (auto simp add: updateAzEl_def Let_def isUnit_fromEuler split: option.splits if_splits)

lemma updateRotation_unit:
  assumes "updateRotation s cx cy = Inr s1" "isUnit (q s)" "isUnit (q0 s)"
  shows "isUnit (q s1) \<and> isUnit (q0 s1)"
proof -
  from assms(1) obtain d where d: "drag s = Some d"
    by (auto simp: updateRotation_def split: option.splits)
  show ?thesis
    using assms d updateAzEl_unit [of s _ _ s1] updateTrackball_unit [of s _ _ cx cy s1]
      updateSphericalMethods_unit [of s cx cy s1]
    by (auto simp: updateRotation_def Let_def split: if_splits)
qed

lemma update_unit:
  assumes "update s = Inr s1" "isUnit (q s)" "isUnit (q0 s)"
  shows "isUnit (q s1) \<and> isUnit (q0 s1)"
  using assms updateRotation_unit [of s _ _ ]
  by (auto simp: update_def draw_def split: option.splits if_splits sum.splits prod.splits)

lemma step_unit:
  assumes "step s e = Inr s1" "isUnit (q s)" "isUnit (q0 s)" "\<forall>p. e = Rotate p \<longrightarrow> isUnit p"
  shows "isUnit (q s1) \<and> isUnit (q0 s1)"
proof (cases e)
  case (MouseDown x y b)
  then show ?thesis using assms by (auto simp: handleMouseDown_def draw_def split: sum.splits)
next
  case (MouseMove x y)
  then show ?thesis using assms by (auto simp: handleMouseMove_def)
next
  case AnimationFrame
  then show ?thesis using assms update_unit [of s s1]
    by (auto split: if_splits sum.splits error.splits)
next
  case MouseUp
  then show ?thesis using assms by (auto simp: handleMouseUp_def draw_def)
next
  case (Rotate p)
  then show ?thesis using assms by (auto simp: rotate_def draw_def isUnit_mul)
next
  case Reset
  then show ?thesis using assms by (auto simp: reset_def draw_def isUnit_def normSq_def)
qed

lemma run_unit:
  assumes "run s evs = Inr s1" "isUnit (q s)" "isUnit (q0 s)"
    "\<forall>p. Rotate p \<in> set evs \<longrightarrow> isUnit p"
  shows "isUnit (q s1) \<and> isUnit (q0 s1)"
  using assms
proof (induction evs arbitrary: s)
  case Nil
  then show ?case by simp
next
  case (Cons e evs)
  then obtain s2 where s2: "step s e = Inr s2" and r: "run s2 evs = Inr s1"
    by (auto split: sum.splits)
  have "isUnit (q s2) \<and> isUnit (q0 s2)"
    using step_unit [OF s2 Cons.prems(2,3)] Cons.prems(4) by simp
  then show ?case using Cons.IH [OF r] Cons.prems(4) by simp
qed

subsection \<open>Samples and round trips\<close>

lemma isInBounds_viewport400 [simp]:
  "isInBounds x y viewport400 \<longleftrightarrow> 0 \<le> x \<and> x \<le> 400 \<and> 0 \<le> y \<and> y \<le> 400"
  by (simp add: isInBounds_def viewport400_def left_def right_def top_def bottom_def)

text \<open>One applied sample: a mouse move followed by the animation frame it requested.\<close>

lemma sample_trackball:
  assumes d: "drag s = Some d"
      and m: "rotationMethod (opts s) = Some ''trackball'' \<or> rotationMethod (opts s) = Some ''trackball_no_precession''"
      and inb: "isInBounds cx cy (box d)"
      and nz: "cx - fst (startPosition d) \<noteq> 0 \<or> cy - snd (startPosition d) \<noteq> 0"
      and vp: "min (height (box d)) (width (box d)) \<noteq> 0"
  shows "run s [MouseMove cx cy, AnimationFrame] =
    Inr (let dq = trackball_dq (cx - fst (startPosition d)) (cy - snd (startPosition d))
                    (min (height (box d)) (width (box d)));
             s1 = s\<lparr>lastMousePosition := Some (cx, cy), isUpdatePending := False,
                     q := mul dq (q0 s), drawn := drawn s @ [mul dq (q0 s)]\<rparr>
         in if rotationMethod (opts s) = Some ''trackball''
            then s1\<lparr>q0 := mul dq (q0 s), drag := Some (d\<lparr>startPosition := (cx, cy)\<rparr>)\<rparr>
            else s1)"
proof -
  let ?s2 = "s\<lparr>lastMousePosition := Some (cx, cy), isUpdatePending := True\<rparr>"
  have mm: "handleMouseMove s cx cy = ?s2" using d by (simp add: handleMouseMove_def)
  have d2: "drag ?s2 = Some d" using d by simp
  have ut: "updateTrackball ?s2 (cx - fst (startPosition d)) (cy - snd (startPosition d)) cx cy = 
       Inr (if rotationMethod (opts ?s2) = Some ''trackball''
                then ?s2\<lparr>q := mul (trackball_dq (cx - fst (startPosition d)) (cy - snd (startPosition d)) (min (height (box d)) (width (box d)))) (q0 ?s2),
                       q0 := mul (trackball_dq (cx - fst (startPosition d)) (cy - snd (startPosition d)) (min (height (box d)) (width (box d)))) (q0 ?s2),
                       drag := Some (d\<lparr>startPosition := (cx, cy)\<rparr>)\<rparr>
                else ?s2\<lparr>q := mul (trackball_dq (cx - fst (startPosition d)) (cy - snd (startPosition d)) (min (height (box d)) (width (box d)))) (q0 ?s2)\<rparr>)"
    by (rule updateTrackball_eq [OF d2 vp nz])
  have ur: "updateRotation ?s2 cx cy = updateTrackball ?s2 (cx - fst (startPosition d)) (cy - snd (startPosition d)) cx cy"
    using d m nz by (auto simp: updateRotation_def Let_def)
  show ?thesis
    using d m inb
    by (auto simp add: mm update_def ur ut draw_def Let_def)
qed

lemma viewport400_sides [simp]: "width viewport400 = 400" "height viewport400 = 400"
  by (simp_all add: viewport400_def)

lemma run_append:
  "run s (xs @ ys) = (case run s xs of Inl e \<Rightarrow> Inl e | Inr s1 \<Rightarrow> run s1 ys)"
  by (induction xs arbitrary: s) (auto split: sum.splits)

lemma run_after_step:
  assumes "step s e = Inr s1"
  shows "run s (e # es) = run s1 es"
  using assms by simp

lemma run_after_sample:
  assumes "run s [e1, e2] = Inr s1"
  shows "run s (e1 # e2 # es) = run s1 es"
  using run_append [of s "[e1, e2]" es] assms by (simp del: run.simps)

lemma sample_zero:
  assumes d: "drag s = Some d"
      and inb: "isInBounds cx cy (box d)"
      and z: "startPosition d = (cx, cy)"
  shows "run s [MouseMove cx cy, AnimationFrame] =
    Inr (s\<lparr>lastMousePosition := Some (cx, cy), isUpdatePending := False,
            drawn := drawn s @ [q s]\<rparr>)"
  using assms
  by (simp add: handleMouseMove_def update_def updateRotation_def draw_def)

lemma sample_dropped:
  assumes d: "drag s = Some d" and out: "\<not> isInBounds cx cy (box d)"
  shows "run s [MouseMove cx cy, AnimationFrame] =
    Inr (s\<lparr>lastMousePosition := Some (cx, cy), isUpdatePending := False\<rparr>)"
  using assms by (simp add: handleMouseMove_def update_def)

text \<open>
  A sample that changes nothing but the recorded position, the pending flag and the log
  of the draw callback, followed by a sample at the start position of the drag.
\<close>

lemma back_at_start:
  assumes d: "drag s0 = Some d" and z: "startPosition d = (sx, sy)"
      and r1: "run s0 [MouseMove ex ey, AnimationFrame] = Inr s1"
      and same: "drag s1 = drag s0" "q s1 = q s0"
  shows "\<exists>s2. run s0 [MouseMove ex ey, AnimationFrame, MouseMove sx sy, AnimationFrame] = Inr s2
              \<and> q s2 = q s0"
proof -
  have d1: "drag s1 = Some d" using d same(1) by simp
  have "\<exists>s2. run s1 [MouseMove sx sy, AnimationFrame] = Inr s2 \<and> q s2 = q s1"
  proof (cases "isInBounds sx sy (box d)")
    case True
    from sample_zero [OF d1 True z] show ?thesis by (simp del: run.simps)
  next
    case False
    from sample_dropped [OF d1 False] show ?thesis by (simp del: run.simps)
  qed
  then show ?thesis
    using same(2) by (simp only: run_after_sample [OF r1])
qed

lemma sample_sphere:
  assumes d: "drag s = Some d"
      and m: "rotationMethod (opts s) = Some ''sphere''"
      and inb: "isInBounds cx cy (box d)"
      and nz: "cx - fst (startPosition d) \<noteq> 0 \<or> cy - snd (startPosition d) \<noteq> 0"
      and u: "startVector d = Some u"
      and v: "project (opts s) cx cy (box d) = Inr (Some v)"
  shows "run s [MouseMove cx cy, AnimationFrame] =
    Inr (s\<lparr>lastMousePosition := Some (cx, cy), isUpdatePending := False,
            q := mul (fromVectors u v) (q0 s), q0 := mul (fromVectors u v) (q0 s),
            drag := Some (d\<lparr>startVector := Some v, startPosition := (cx, cy)\<rparr>),
            drawn := drawn s @ [mul (fromVectors u v) (q0 s)]\<rparr>)"
proof -
  let ?s2 = "s\<lparr>lastMousePosition := Some (cx, cy), isUpdatePending := True\<rparr>"
  have mm: "handleMouseMove s cx cy = ?s2" using d by (simp add: handleMouseMove_def)
  have us: "updateSphericalMethods ?s2 cx cy =
      Inr (?s2\<lparr>q := mul (fromVectors u v) (q0 s), q0 := mul (fromVectors u v) (q0 s),
            drag := Some (d\<lparr>startVector := Some v, startPosition := (cx, cy)\<rparr>)\<rparr>)"
    using d m u v by (simp add: updateSphericalMethods_def Let_def)
  have ur: "updateRotation ?s2 cx cy = updateSphericalMethods ?s2 cx cy"
    using d m nz by (auto simp: updateRotation_def Let_def)
  show ?thesis
    using d m inb by (simp add: mm update_def ur us draw_def)
qed

lemma round_trip_trackball:
  assumes m: "rotationMethod (opts s) = Some ''trackball''"
      and eq: "q0 s = q s"
      and vp: "min (width b) (height b) \<noteq> 0"
      and inb: "isInBounds sx sy b"
  shows "\<exists>s1. run s [MouseDown sx sy b, MouseMove ex ey, AnimationFrame,
                       MouseMove sx sy, AnimationFrame] = Inr s1 \<and> q s1 = q s"
proof -
  let ?d = "\<lparr>startVector = None, startPosition = (sx, sy), box = b\<rparr>"
  let ?s0 = "s\<lparr>drag := Some ?d, drawn := drawn s @ [q s]\<rparr>"
  have np: "\<not> projecting (rotationMethod (opts s))" "rotationMethod (opts s) \<noteq> Some ''bell''"
    using m by (simp_all add: projecting_def)
  have md: "handleMouseDown s sx sy b = Inr ?s0"
    by (simp add: handleMouseDown_def project_undefined [OF np] draw_def)
  have st: "step s (MouseDown sx sy b) = Inr ?s0" using md by simp
  have vp': "min (height b) (width b) \<noteq> 0" using vp by (simp add: min.commute)
  have "\<exists>s1. run ?s0 [MouseMove ex ey, AnimationFrame, MouseMove sx sy, AnimationFrame] = Inr s1
             \<and> q s1 = q s"
  proof -
    consider (same) "ex = sx \<and> ey = sy" "isInBounds ex ey b"
      | (out) "\<not> isInBounds ex ey b"
      | (moved) "\<not> (ex = sx \<and> ey = sy)" "isInBounds ex ey b"
      by blast
    then show ?thesis
    proof cases
      case same
      have r1: "run ?s0 [MouseMove ex ey, AnimationFrame]
                = Inr (?s0\<lparr>lastMousePosition := Some (ex, ey), isUpdatePending := False,
                           drawn := drawn ?s0 @ [q ?s0]\<rparr>)"
        using sample_zero [of ?s0 ?d ex ey] same by (simp del: run.simps)
      from back_at_start [of ?s0 ?d sx sy ex ey, OF _ _ r1] show ?thesis
        by (simp del: run.simps)
    next
      case out
      have r1: "run ?s0 [MouseMove ex ey, AnimationFrame]
                = Inr (?s0\<lparr>lastMousePosition := Some (ex, ey), isUpdatePending := False\<rparr>)"
        using sample_dropped [of ?s0 ?d ex ey] out by (simp del: run.simps)
      from back_at_start [of ?s0 ?d sx sy ex ey, OF _ _ r1] show ?thesis
        by (simp del: run.simps)
    next
      case moved
      let ?dq = "trackball_dq (ex - sx) (ey - sy) (min (height b) (width b))"
      let ?d1 = "?d\<lparr>startPosition := (ex, ey)\<rparr>"
      let ?s1 = "?s0\<lparr>lastMousePosition := Some (ex, ey), isUpdatePending := False,
                      q := mul ?dq (q0 s), drawn := drawn ?s0 @ [mul ?dq (q0 s)],
                      q0 := mul ?dq (q0 s), drag := Some ?d1\<rparr>"
      have nz: "ex - sx \<noteq> 0 \<or> ey - sy \<noteq> 0" using moved(1) by auto
      have nz': "sx - ex \<noteq> 0 \<or> sy - ey \<noteq> 0" using moved(1) by auto
      have r1: "run ?s0 [MouseMove ex ey, AnimationFrame] = Inr ?s1"
        using sample_trackball [of ?s0 ?d ex ey] m moved(2) nz vp'
        by (simp add: Let_def del: run.simps)
      let ?dq2 = "trackball_dq (sx - ex) (sy - ey) (min (height b) (width b))"
      let ?s2 = "?s1\<lparr>lastMousePosition := Some (sx, sy), isUpdatePending := False,
                      q := mul ?dq2 (q0 ?s1), drawn := drawn ?s1 @ [mul ?dq2 (q0 ?s1)],
                      q0 := mul ?dq2 (q0 ?s1), drag := Some (?d1\<lparr>startPosition := (sx, sy)\<rparr>)\<rparr>"
      have r2: "run ?s1 [MouseMove sx sy, AnimationFrame] = Inr ?s2"
        using sample_trackball [of ?s1 ?d1 sx sy] m inb nz' vp'
        by (simp add: Let_def del: run.simps)
      have "?dq2 = trackball_dq (- (ex - sx)) (- (ey - sy)) (min (height b) (width b))" by simp
      then have c: "?dq2 = conjugate ?dq" by (simp only: trackball_dq_neg)
      have "mul ?dq2 (mul ?dq (q0 s)) = mul (mul (conjugate ?dq) ?dq) (q0 s)"
        by (simp only: c mul_assoc_q)
      also have "\<dots> = q0 s"
        using isUnit_trackball_dq [OF vp' nz] by (simp add: mul_conjugate_left mul_ONE_left)
      finally have restored: "mul ?dq2 (mul ?dq (q0 s)) = q s" using eq by simp
      have "run ?s0 [MouseMove ex ey, AnimationFrame, MouseMove sx sy, AnimationFrame]
            = run ?s1 [MouseMove sx sy, AnimationFrame]"
        by (simp only: run_after_sample [OF r1])
      then show ?thesis using r2 restored by (simp del: run.simps)
    qed
  qed
  then show ?thesis by (simp only: run_after_step [OF st])
qed

lemma round_trip_sphere:
  assumes m: "rotationMethod (opts s) = Some ''sphere''"
      and eq: "q0 s = q s"
      and vp: "max (width b) (height b) \<noteq> 1" "ballsize (opts s) \<noteq> 0"
      and inb: "isInBounds sx sy b"
  shows "\<exists>s1. run s [MouseDown sx sy b, MouseMove ex ey, AnimationFrame,
                       MouseMove sx sy, AnimationFrame] = Inr s1 \<and> q s1 = q s"
proof -
  have pm: "projecting (rotationMethod (opts s)) \<or> rotationMethod (opts s) = Some ''bell''"
    using m by (simp add: projecting_def)
  from project_defined [OF pm vp, of sx sy]
  obtain u where u: "project (opts s) sx sy b = Inr (Some u)" by blast
  from project_defined [OF pm vp, of ex ey]
  obtain v where v: "project (opts s) ex ey b = Inr (Some v)" by blast
  let ?d = "\<lparr>startVector = Some u, startPosition = (sx, sy), box = b\<rparr>"
  let ?s0 = "s\<lparr>drag := Some ?d, drawn := drawn s @ [q s]\<rparr>"
  have md: "handleMouseDown s sx sy b = Inr ?s0"
    by (simp add: handleMouseDown_def u draw_def)
  have st: "step s (MouseDown sx sy b) = Inr ?s0" using md by simp
  have "\<exists>s1. run ?s0 [MouseMove ex ey, AnimationFrame, MouseMove sx sy, AnimationFrame] = Inr s1
             \<and> q s1 = q s"
  proof -
    consider (same) "ex = sx \<and> ey = sy" "isInBounds ex ey b"
      | (out) "\<not> isInBounds ex ey b"
      | (moved) "\<not> (ex = sx \<and> ey = sy)" "isInBounds ex ey b"
      by blast
    then show ?thesis
    proof cases
      case same
      have r1: "run ?s0 [MouseMove ex ey, AnimationFrame]
                = Inr (?s0\<lparr>lastMousePosition := Some (ex, ey), isUpdatePending := False,
                           drawn := drawn ?s0 @ [q ?s0]\<rparr>)"
        using sample_zero [of ?s0 ?d ex ey] same by (simp del: run.simps)
      from back_at_start [of ?s0 ?d sx sy ex ey, OF _ _ r1] show ?thesis
        by (simp del: run.simps)
    next
      case out
      have r1: "run ?s0 [MouseMove ex ey, AnimationFrame]
                = Inr (?s0\<lparr>lastMousePosition := Some (ex, ey), isUpdatePending := False\<rparr>)"
        using sample_dropped [of ?s0 ?d ex ey] out by (simp del: run.simps)
      from back_at_start [of ?s0 ?d sx sy ex ey, OF _ _ r1] show ?thesis
        by (simp del: run.simps)
    next
      case moved
      let ?dq = "fromVectors u v"
      let ?d1 = "?d\<lparr>startVector := Some v, startPosition := (ex, ey)\<rparr>"
      let ?s1 = "?s0\<lparr>lastMousePosition := Some (ex, ey), isUpdatePending := False,
                      q := mul ?dq (q0 s), q0 := mul ?dq (q0 s), drag := Some ?d1,
                      drawn := drawn ?s0 @ [mul ?dq (q0 s)]\<rparr>"
      have nz: "ex - sx \<noteq> 0 \<or> ey - sy \<noteq> 0" using moved(1) by auto
      have nz': "sx - ex \<noteq> 0 \<or> sy - ey \<noteq> 0" using moved(1) by auto
      have r1: "run ?s0 [MouseMove ex ey, AnimationFrame] = Inr ?s1"
        using sample_sphere [of ?s0 ?d ex ey u v] m moved(2) nz v
        by (simp del: run.simps)
      let ?dq2 = "fromVectors v u"
      let ?s2 = "?s1\<lparr>lastMousePosition := Some (sx, sy), isUpdatePending := False,
                      q := mul ?dq2 (q0 ?s1), q0 := mul ?dq2 (q0 ?s1),
                      drag := Some (?d1\<lparr>startVector := Some u, startPosition := (sx, sy)\<rparr>),
                      drawn := drawn ?s1 @ [mul ?dq2 (q0 ?s1)]\<rparr>"
      have r2: "run ?s1 [MouseMove sx sy, AnimationFrame] = Inr ?s2"
        using sample_sphere [of ?s1 ?d1 sx sy v u] m inb nz' u
        by (simp del: run.simps)
      have restored: "mul ?dq2 (mul ?dq (q0 s)) = q s"
        using eq by (simp only: fromVectors_round_trip)
      have "run ?s0 [MouseMove ex ey, AnimationFrame, MouseMove sx sy, AnimationFrame]
            = run ?s1 [MouseMove sx sy, AnimationFrame]"
        by (simp only: run_after_sample [OF r1])
      then show ?thesis using r2 restored by (simp del: run.simps)
    qed
  qed
  then show ?thesis by (simp only: run_after_step [OF st])
qed

lemma round_trip:
  assumes "rotationMethod (opts s) = Some ''trackball'' \<or> rotationMethod (opts s) = Some ''sphere''"
      and "q0 s = q s"
      and "viewport_ok (opts s) b"
      and "isInBounds sx sy b"
  shows "\<exists>s1. run s [MouseDown sx sy b, MouseMove ex ey, AnimationFrame,
                       MouseMove sx sy, AnimationFrame] = Inr s1 \<and> q s1 = q s"
  using assms(1)
proof
  assume m: "rotationMethod (opts s) = Some ''trackball''"
  then have "min (width b) (height b) \<noteq> 0" using assms(3) by (simp add: viewport_ok_def)
  from round_trip_trackball [OF m assms(2) this assms(4)] show ?thesis .
next
  assume m: "rotationMethod (opts s) = Some ''sphere''"
  then have "max (width b) (height b) \<noteq> 1" "ballsize (opts s) \<noteq> 0"
    using assms(3) by (simp_all add: viewport_ok_def projecting_def)
  from round_trip_sphere [OF m assms(2) this assms(4)] show ?thesis .
qed

text \<open>
  With \<open>'trackball'\<close> and \<open>'sphere'\<close> every sample commits, so the committed and the
  current orientation are the same in every state, during a drag too.
\<close>

lemma update_committed:
  assumes "rotationMethod (opts s) = Some ''trackball'' \<or> rotationMethod (opts s) = Some ''sphere''"
      and "q0 s = q s" and "update s = Inr s1"
  shows "q0 s1 = q s1"
  using assms
  by (auto simp add: update_def updateRotation_def updateTrackball_def updateSphericalMethods_def
      draw_def Let_def split: option.splits if_splits sum.splits prod.splits)

lemma step_committed:
  assumes "rotationMethod (opts s) = Some ''trackball'' \<or> rotationMethod (opts s) = Some ''sphere''"
      and "q0 s = q s" and "step s e = Inr s1"
  shows "q0 s1 = q s1"
proof (cases e)
  case (MouseDown x y b)
  then show ?thesis using assms by (auto simp: handleMouseDown_def draw_def split: sum.splits)
next
  case (MouseMove x y)
  then show ?thesis using assms by (auto simp: handleMouseMove_def)
next
  case AnimationFrame
  then show ?thesis using assms update_committed [of s s1]
    by (auto split: if_splits sum.splits error.splits)
next
  case MouseUp
  then show ?thesis using assms by (auto simp: handleMouseUp_def draw_def)
next
  case (Rotate p)
  then show ?thesis using assms by (auto simp: rotate_def draw_def)
next
  case Reset
  then show ?thesis using assms by (auto simp: reset_def draw_def)
qed

lemma run_committed:
  assumes "rotationMethod (opts s) = Some ''trackball'' \<or> rotationMethod (opts s) = Some ''sphere''"
      and "q0 s = q s" and "run s evs = Inr s1"
  shows "q0 s1 = q s1"
  using assms
proof (induction evs arbitrary: s)
  case Nil
  then show ?case by simp
next
  case (Cons e evs)
  then obtain s2 where s2: "step s e = Inr s2" and r: "run s2 evs = Inr s1"
    by (auto split: sum.splits)
  have "opts s2 = opts s" by (rule step_opts [OF s2])
  then show ?case
    using Cons.IH [OF _ step_committed [OF Cons.prems(1,2) s2] r] Cons.prems(1) by simp
qed

lemma samples_append: "samples (pts @ pts2) = samples pts @ samples pts2"
  by (induction pts rule: samples.induct) simp_all

lemma run_sample_split:
  assumes "run s (e1 # e2 # es) = Inr s1"
  shows "\<exists>s2. run s [e1, e2] = Inr s2 \<and> run s2 es = Inr s1"
  using assms run_append [of s "[e1, e2]" es]
  by (cases "run s [e1, e2]") (simp_all del: run.simps)

text \<open>
  One sample of \<open>'trackball_no_precession'\<close>: the committed orientation and the drag,
  with its start position, stay as they are, and an applied sample with a delta composes
  the rotation for that delta with the committed orientation.
\<close>

lemma no_precession_sample:
  assumes m: "rotationMethod (opts s) = Some ''trackball_no_precession''"
      and d: "drag s = Some d"
      and r: "run s [MouseMove cx cy, AnimationFrame] = Inr s1"
  shows "q0 s1 = q0 s \<and> drag s1 = Some d \<and> opts s1 = opts s
         \<and> (isInBounds cx cy (box d)
              \<and> (cx - fst (startPosition d) \<noteq> 0 \<or> cy - snd (startPosition d) \<noteq> 0)
            \<longrightarrow> q s1 = mul (trackball_dq (cx - fst (startPosition d))
                              (cy - snd (startPosition d))
                              (min (height (box d)) (width (box d)))) (q0 s))"
proof -
  consider (out) "\<not> isInBounds cx cy (box d)"
    | (zero) "isInBounds cx cy (box d)" "startPosition d = (cx, cy)"
    | (moved) "isInBounds cx cy (box d)"
        "cx - fst (startPosition d) \<noteq> 0 \<or> cy - snd (startPosition d) \<noteq> 0"
    by (cases "startPosition d") auto
  then show ?thesis
  proof cases
    case out
    from sample_dropped [OF d out] r show ?thesis using d out by (auto simp del: run.simps)
  next
    case zero
    from sample_zero [OF d zero] r show ?thesis using d zero by (auto simp del: run.simps)
  next
    case moved
    show ?thesis
    proof (cases "min (height (box d)) (width (box d)) = 0")
      case True
      have "run s [MouseMove cx cy, AnimationFrame] = Inl NonFinite"
        using m d moved True
        by (auto simp add: handleMouseMove_def update_def updateRotation_def updateTrackball_def
            Let_def)
      with r show ?thesis by simp
    next
      case False
      have m': "rotationMethod (opts s) = Some ''trackball''
                \<or> rotationMethod (opts s) = Some ''trackball_no_precession''" using m by simp
      from sample_trackball [OF d m' moved False] r m d
      show ?thesis by (auto simp add: Let_def simp del: run.simps)
    qed
  qed
qed

lemma no_precession_samples:
  assumes "rotationMethod (opts s) = Some ''trackball_no_precession''"
      and "drag s = Some d" and "run s (samples pts) = Inr s1"
  shows "q0 s1 = q0 s \<and> drag s1 = Some d \<and> opts s1 = opts s"
  using assms
proof (induction pts arbitrary: s rule: samples.induct)
  case 1
  then show ?case by simp
next
  case (2 x y pts)
  from run_sample_split [of s "MouseMove x y" AnimationFrame "samples pts" s1] "2.prems"(3)
  obtain s2 where s2: "run s [MouseMove x y, AnimationFrame] = Inr s2"
    and r: "run s2 (samples pts) = Inr s1" by (auto simp del: run.simps)
  from no_precession_sample [OF "2.prems"(1,2) s2]
  have k: "q0 s2 = q0 s" "drag s2 = Some d" "opts s2 = opts s" by simp_all
  from "2.IH" [of s2] k r "2.prems"(1) show ?case by simp
qed

subsection \<open>Evaluation at concrete inputs\<close>

lemmas eval_defs = constructor_def method_args_def no_args_def default_to_def draw_def Let_def
  handleMouseDown_def handleMouseMove_def handleMouseUp_def update_def updateRotation_def
  updateTrackball_def rotate_def reset_def project_def projecting_def isInBounds_def
  left_def right_def top_def bottom_def viewport400_def ONE_def

lemma updateRotation_bell:
  assumes d: "drag s = Some d" and m: "rotationMethod (opts s) = Some ''bell''"
      and vp: "viewport_ok (opts s) (box d)" and u: "startVector d \<noteq> None"
  shows "\<exists>s1. updateRotation s cx cy = Inr s1"
proof -
  have "max (width (box d)) (height (box d)) - 1 \<noteq> 0" "ballsize (opts s) \<noteq> 0"
    using vp m by (simp_all add: viewport_ok_def projecting_def)
  from project_bell [OF m this, of cx cy]
  obtain z where z: "project (opts s) cx cy (box d)
      = Inr (Some (px (opts s) cx (box d), py (opts s) cy (box d), z))" by blast
  from u obtain u1 where u1: "startVector d = Some u1" by auto
  have "\<exists>s1. updateSphericalMethods s cx cy = Inr s1"
    using d m z u1 by (simp add: updateSphericalMethods_def Let_def)
  then show ?thesis using d m by (auto simp: updateRotation_def Let_def)
qed

text \<open>
  With \<open>'azel'\<close>, a click (mouse down and mouse up with no sample applied in between)
  copies the still undefined \<open>azimuth\<close> and \<open>elevation\<close> into their start
  values, and the first sample of the next drag adds a number to \<open>undefined\<close>.
\<close>

lemma azel_click_then_drag_not_finite:
  "run (constructor (method_args ''azel''))
     [MouseDown 200 200 viewport400, MouseUp, MouseDown 200 200 viewport400,
      MouseMove 220 200, AnimationFrame] = Inl NonFinite"
  by (simp add: eval_defs updateAzEl_def)

section \<open>The claims\<close>

text \<open>
  Claim C1, as stated, is false. \<open>rotate\<close> multiplies the committed orientation by
  its argument as it is given: after \<open>rotate\<close> by the quaternion \<open>(2, 0, 0, 0)\<close>,
  on a controller just constructed, the current orientation has squared norm 4. And on
  a rectangle of height 0 an in-bounds sample of a trackball method divides by zero, so
  that the orientation is not a number.
\<close>

theorem C1_counterexample:
  "run (constructor (method_args ''trackball'')) [Rotate (Quaternion 2 0 0 0)]
     = Inr (rotate (constructor (method_args ''trackball'')) (Quaternion 2 0 0 0))
   \<and> normSq (q (rotate (constructor (method_args ''trackball'')) (Quaternion 2 0 0 0))) = 4
   \<and> \<not> isUnit (q (rotate (constructor (method_args ''trackball'')) (Quaternion 2 0 0 0)))
   \<and> isInBounds 0 0 flat_viewport \<and> isInBounds 30 0 flat_viewport
   \<and> run (constructor (method_args ''trackball_no_precession''))
         [MouseDown 0 0 flat_viewport, MouseMove 30 0, AnimationFrame] = Inl NonFinite"
  by (simp add: eval_defs isUnit_def normSq_def flat_viewport_def)

text \<open>
  Claim C1, amended. If the current and the committed orientation are unit quaternions
  and \<open>rotate\<close> is given unit quaternions only, then for every value of
  \<open>rotationMethod\<close> and every sequence of mouse-down, mouse-move, animation-frame,
  mouse-up, \<open>rotate\<close> and \<open>reset\<close> events, the current orientation is a unit
  quaternion after the sequence whenever every number computed on the way is finite. And
  every number is finite when each drag starts on a rectangle on which the method
  divides by no zero and, for \<open>'azel'\<close>, no drag ends while azimuth or elevation is
  still \<open>undefined\<close>. A constructed controller satisfies \<open>finite_ok\<close>, for
  \<open>'azel'\<close> too (\<open>finite_ok_constructor\<close>).
\<close>

theorem C1_orientation_stays_unit:
  assumes "isUnit (q s)" and "isUnit (q0 s)" and "\<forall>p. Rotate p \<in> set evs \<longrightarrow> isUnit p"
  shows "(\<forall>s1. run s evs = Inr s1 \<longrightarrow> isUnit (q s1))
         \<and> (finite_ok s \<and> (\<forall>e \<in> set evs. event_ok (opts s) e) \<and> commits_defined s evs
              \<longrightarrow> (\<exists>s1. run s evs = Inr s1))"
  using run_unit [OF _ assms] run_finite [of s evs] by blast

text \<open>
  Claim C1, witness: two drags with a sample each, a \<open>rotate\<close> and a \<open>reset\<close> on
  a controller constructed for \<open>'azel'\<close>.
\<close>

theorem C1_witness:
  "\<exists>s1. run (constructor (method_args ''azel''))
          [MouseDown 200 200 viewport400, MouseMove 220 200, AnimationFrame, MouseUp,
           MouseDown 10 10 viewport400, MouseMove 10 30, AnimationFrame, MouseUp,
           Rotate (Quaternion 0 1 0 0), Reset] = Inr s1 \<and> isUnit (q s1)"
proof -
  let ?c = "constructor (method_args ''azel'')"
  let ?evs = "[MouseDown 200 200 viewport400, MouseMove 220 200, AnimationFrame, MouseUp,
           MouseDown 10 10 viewport400, MouseMove 10 30, AnimationFrame, MouseUp,
           Rotate (Quaternion 0 1 0 0), Reset]"
  have u: "isUnit (q ?c)" "isUnit (q0 ?c)"
    by (simp_all add: constructor_fields method_args_def no_args_def default_to_def isUnit_ONE)
  have p: "\<forall>p. Rotate p \<in> set ?evs \<longrightarrow> isUnit p" by (simp add: isUnit_def normSq_def)
  have e: "\<forall>e \<in> set ?evs. event_ok (opts ?c) e"
    by (simp add: constructor_fields method_args_def no_args_def viewport_ok_def)
  have c: "commits_defined ?c ?evs"
    by (simp add: eval_defs updateAzEl_def commit_defined_def)
  from C1_orientation_stays_unit [OF u p] finite_ok_constructor [of "method_args ''azel''"] e c
  show ?thesis by blast
qed

text \<open>
  Claim C2. From any state in which the two orientations agree if no drag is active, as
  after construction, every sequence of events reaches only states in which, if no drag
  is active, the committed orientation \<open>q0\<close> and the current orientation \<open>q\<close> are
  the same quaternion. The end of a drag commits: \<open>#handleMouseUp\<close> sets \<open>q0\<close> to
  the current orientation, leaves \<open>q\<close> as it is and ends the drag; outside a drag it
  changes nothing. Outside a drag \<open>rotate\<close> sets both to the product of the committed
  orientation and its argument, and \<open>reset\<close> sets both to the identity, in every
  state.
\<close>

theorem C2_idle_orientations_agree:
  "(\<forall>t. (drag s = None \<longrightarrow> q0 s = q s) \<and> run s evs = Inr t \<and> drag t = None \<longrightarrow> q0 t = q t)
   \<and> drag (constructor a) = None \<and> q0 (constructor a) = q (constructor a)
   \<and> (drag s \<noteq> None \<longrightarrow>
         drag (handleMouseUp s) = None \<and> q0 (handleMouseUp s) = q s \<and> q (handleMouseUp s) = q s)
   \<and> (drag s = None \<longrightarrow> handleMouseUp s = s)
   \<and> (drag s = None \<longrightarrow>
         q0 (rotate s p) = mul (q0 s) p \<and> q (rotate s p) = mul (q0 s) p
         \<and> drag (rotate s p) = None)
   \<and> drag (reset s) = None \<and> q0 (reset s) = Quaternion 1 0 0 0
   \<and> q (reset s) = Quaternion 1 0 0 0"
proof -
  have inv: "\<forall>t. (drag s = None \<longrightarrow> q0 s = q s) \<and> run s evs = Inr t \<and> drag t = None
              \<longrightarrow> q0 t = q t"
  proof (intro allI impI)
    fix t
    assume h: "(drag s = None \<longrightarrow> q0 s = q s) \<and> run s evs = Inr t \<and> drag t = None"
    then have "idle_agree s" by (simp add: idle_agree_def)
    with h have "idle_agree t" using run_idle_agree [of s evs t] by blast
    with h show "q0 t = q t" by (simp add: idle_agree_def)
  qed
  have c: "drag (constructor a) = None \<and> q0 (constructor a) = q (constructor a)"
    by (simp add: constructor_fields)
  have up: "drag s \<noteq> None \<longrightarrow>
         drag (handleMouseUp s) = None \<and> q0 (handleMouseUp s) = q s \<and> q (handleMouseUp s) = q s"
    by (simp add: handleMouseUp_def draw_def)
  have up0: "drag s = None \<longrightarrow> handleMouseUp s = s"
    by (simp add: handleMouseUp_def)
  have ro: "drag s = None \<longrightarrow>
         q0 (rotate s p) = mul (q0 s) p \<and> q (rotate s p) = mul (q0 s) p
         \<and> drag (rotate s p) = None"
    by (simp add: rotate_def draw_def)
  have re: "drag (reset s) = None \<and> q0 (reset s) = Quaternion 1 0 0 0
            \<and> q (reset s) = Quaternion 1 0 0 0"
    by (simp add: reset_def draw_def)
  from inv c up up0 ro re show ?thesis by (intro conjI) blast+
qed

text \<open>
  Claim C2, witness: a drag with one applied sample, from mouse-down to mouse-up; a
  mouse-up in a state whose current orientation \<open>(0, 1, 0, 0)\<close> differs from the
  committed one; a mouse-up and a \<open>rotate\<close> outside a drag.
\<close>

theorem C2_witness:
  "(\<exists>t. run (constructor (method_args ''trackball_no_precession''))
           [MouseDown 200 200 viewport400, MouseMove 220 200, AnimationFrame, MouseUp] = Inr t
       \<and> drag t = None \<and> q0 t = q t)
   \<and> q0 (handleMouseUp ((dragging (constructor no_args) None)\<lparr>q := Quaternion 0 1 0 0\<rparr>))
       = Quaternion 0 1 0 0
   \<and> q (handleMouseUp ((dragging (constructor no_args) None)\<lparr>q := Quaternion 0 1 0 0\<rparr>))
       = Quaternion 0 1 0 0
   \<and> drag (handleMouseUp ((dragging (constructor no_args) None)\<lparr>q := Quaternion 0 1 0 0\<rparr>))
       = None
   \<and> handleMouseUp (constructor no_args) = constructor no_args
   \<and> q0 (rotate (constructor no_args) (Quaternion 0 0 1 0)) = Quaternion 0 0 1 0
   \<and> q (rotate (constructor no_args) (Quaternion 0 0 1 0)) = Quaternion 0 0 1 0"
proof -
  let ?c = "constructor (method_args ''trackball_no_precession'')"
  let ?evs = "[MouseDown 200 200 viewport400, MouseMove 220 200, AnimationFrame, MouseUp]"
  let ?s = "(dragging (constructor no_args) None)\<lparr>q := Quaternion 0 1 0 0\<rparr>"
  obtain t where r: "run ?c ?evs = Inr t" and d: "drag t = None"
    by (simp add: eval_defs)
  have i: "drag ?c = None \<longrightarrow> q0 ?c = q ?c" by (simp add: constructor_fields)
  from C2_idle_orientations_agree [of ?c ?evs no_args "Quaternion 0 0 1 0",
      THEN conjunct1, THEN spec, of t] i r d
  have "q0 t = q t" by (simp del: run.simps)
  with r d have first: "\<exists>t. run ?c ?evs = Inr t \<and> drag t = None \<and> q0 t = q t" by blast
  have ds: "drag ?s \<noteq> None" by (simp add: dragging_def)
  have di: "drag (constructor no_args) = None" by (simp add: constructor_fields)
  from C2_idle_orientations_agree [of ?s "[]" no_args "Quaternion 0 0 1 0"] ds
  have up: "drag (handleMouseUp ?s) = None \<and> q0 (handleMouseUp ?s) = q ?s
            \<and> q (handleMouseUp ?s) = q ?s" by (simp del: run.simps)
  from C2_idle_orientations_agree [of "constructor no_args" "[]" no_args "Quaternion 0 0 1 0"] di
  have idle: "handleMouseUp (constructor no_args) = constructor no_args
      \<and> q0 (rotate (constructor no_args) (Quaternion 0 0 1 0))
          = mul (q0 (constructor no_args)) (Quaternion 0 0 1 0)
      \<and> q (rotate (constructor no_args) (Quaternion 0 0 1 0))
          = mul (q0 (constructor no_args)) (Quaternion 0 0 1 0)" by (simp del: run.simps)
  have one: "mul (q0 (constructor no_args)) (Quaternion 0 0 1 0) = Quaternion 0 0 1 0"
    by (simp add: constructor_fields no_args_def default_to_def ONE_def)
  from first up idle show ?thesis by (simp add: one dragging_def del: run.simps)
qed

text \<open>
  Claim C3, as stated, is false. When the drag starts outside the rectangle it captures
  (the listener also receives the mouse-down of a descendant that overflows the
  element), the sample back at the start is dropped and the orientation stays rotated:
  from \<open>(500, 200)\<close> to \<open>(300, 200)\<close> and back in the 400 by 400 rectangle,
  \<open>'trackball'\<close> ends a quarter turn away from the identity it started with. And on a
  rectangle of height 0 the first sample divides by zero.
\<close>

theorem C3_counterexample:
  "\<not> isInBounds 500 200 viewport400
   \<and> map_sum id q (run (constructor (method_args ''trackball''))
        [MouseDown 500 200 viewport400, MouseMove 300 200, AnimationFrame,
         MouseMove 500 200, AnimationFrame])
       = Inr (Quaternion (cos (pi / 4)) 0 (- sin (pi / 4)) 0)
   \<and> q (constructor (method_args ''trackball'')) = Quaternion 1 0 0 0
   \<and> Quaternion (cos (pi / 4)) 0 (- sin (pi / 4)) 0 \<noteq> Quaternion 1 0 0 0
   \<and> isInBounds 0 0 flat_viewport \<and> isInBounds 10 0 flat_viewport
   \<and> run (constructor (method_args ''trackball''))
        [MouseDown 0 0 flat_viewport, MouseMove 10 0, AnimationFrame,
         MouseMove 0 0, AnimationFrame] = Inl NonFinite"
proof -
  let ?c = "constructor (method_args ''trackball'')"
  let ?d = "\<lparr>startVector = None, startPosition = (500, 200), box = viewport400\<rparr>"
  let ?s0 = "?c\<lparr>drag := Some ?d, drawn := drawn ?c @ [q ?c]\<rparr>"
  have out: "\<not> isInBounds 500 200 viewport400" by simp
  have m: "rotationMethod (opts ?c) = Some ''trackball''"
    by (simp add: constructor_fields method_args_def no_args_def)
  have qc: "q ?c = Quaternion 1 0 0 0" "q0 ?c = Quaternion 1 0 0 0"
    by (simp_all add: constructor_fields method_args_def no_args_def default_to_def ONE_def)
  have st: "step ?c (MouseDown 500 200 viewport400) = Inr ?s0"
    using m by (simp add: handleMouseDown_def project_def projecting_def draw_def Let_def)
  have dq: "trackball_dq (- 200) 0 400 = Quaternion (cos (pi / 4)) 0 (- sin (pi / 4)) 0"
    using trackball_dq_neg [of 200 0 400] trackball_dq_horizontal [of 400 200]
    by (simp add: conjugate_def)
  let ?s1 = "?s0\<lparr>lastMousePosition := Some (300, 200), isUpdatePending := False,
                  q := mul (trackball_dq (- 200) 0 400) (q0 ?s0),
                  drawn := drawn ?s0 @ [mul (trackball_dq (- 200) 0 400) (q0 ?s0)],
                  q0 := mul (trackball_dq (- 200) 0 400) (q0 ?s0),
                  drag := Some (?d\<lparr>startPosition := (300, 200)\<rparr>)\<rparr>"
  have r1: "run ?s0 [MouseMove 300 200, AnimationFrame] = Inr ?s1"
    using sample_trackball [of ?s0 ?d 300 200] m
    by (simp add: Let_def del: run.simps)
  have r2: "run ?s1 [MouseMove 500 200, AnimationFrame]
            = Inr (?s1\<lparr>lastMousePosition := Some (500, 200), isUpdatePending := False\<rparr>)"
    using sample_dropped [of ?s1 "?d\<lparr>startPosition := (300, 200)\<rparr>" 500 200]
    by (simp del: run.simps)
  have "run ?c [MouseDown 500 200 viewport400, MouseMove 300 200, AnimationFrame,
                MouseMove 500 200, AnimationFrame]
        = Inr (?s1\<lparr>lastMousePosition := Some (500, 200), isUpdatePending := False\<rparr>)"
    by (simp only: run_after_step [OF st] run_after_sample [OF r1] r2)
  then have stuck: "map_sum id q (run ?c [MouseDown 500 200 viewport400, MouseMove 300 200,
                AnimationFrame, MouseMove 500 200, AnimationFrame])
        = Inr (Quaternion (cos (pi / 4)) 0 (- sin (pi / 4)) 0)"
    by (simp add: dq qc del: run.simps)
  have ne: "Quaternion (cos (pi / 4)) 0 (- sin (pi / 4)) 0 \<noteq> Quaternion 1 0 0 0"
    by (simp add: sin_45)
  have flat: "isInBounds 0 0 flat_viewport \<and> isInBounds 10 0 flat_viewport
      \<and> run ?c [MouseDown 0 0 flat_viewport, MouseMove 10 0, AnimationFrame,
                MouseMove 0 0, AnimationFrame] = Inl NonFinite"
    by (simp add: eval_defs flat_viewport_def)
  from out stuck qc(1) ne flat show ?thesis by (simp del: run.simps)
qed

text \<open>
  Claim C3, amended. For a controller constructed for \<open>'trackball'\<close> or \<open>'sphere'\<close>,
  in every state it reaches: a mouse-down at \<open>(sx, sy)\<close> inside the rectangle it
  captures, a sample at any position \<open>(ex, ey)\<close> and a sample back at \<open>(sx, sy)\<close>
  leave the current orientation exactly as it was before the mouse-down, on a rectangle
  on which the method divides by no zero.
\<close>

theorem C3_round_trip_restores_orientation:
  assumes "arg_rotationMethod a = Some ''trackball'' \<or> arg_rotationMethod a = Some ''sphere''"
      and "run (constructor a) evs = Inr s"
      and "viewport_ok (opts s) b"
      and "isInBounds sx sy b"
  shows "\<exists>s1. run s [MouseDown sx sy b, MouseMove ex ey, AnimationFrame,
                       MouseMove sx sy, AnimationFrame] = Inr s1 \<and> q s1 = q s"
proof -
  have m0: "rotationMethod (opts (constructor a)) = Some ''trackball''
            \<or> rotationMethod (opts (constructor a)) = Some ''sphere''"
    using assms(1) by (simp add: constructor_fields)
  have "opts s = opts (constructor a)" by (rule run_opts [OF assms(2)])
  with m0 have m: "rotationMethod (opts s) = Some ''trackball''
                   \<or> rotationMethod (opts s) = Some ''sphere''" by simp
  have "q0 s = q s"
    by (rule run_committed [OF m0 _ assms(2)]) (simp add: constructor_fields)
  from round_trip [OF m this assms(3,4)] show ?thesis .
qed

text \<open>
  Claim C3, witness: a round trip in the 400 by 400 rectangle for each of the two
  methods, on a controller after \<open>reset\<close>.
\<close>

theorem C3_witness:
  "(\<exists>s1. run (reset (constructor (method_args ''trackball'')))
            [MouseDown 200 200 viewport400, MouseMove 220 200, AnimationFrame,
             MouseMove 200 200, AnimationFrame] = Inr s1 \<and> q s1 = Quaternion 1 0 0 0)
   \<and> (\<exists>s1. run (reset (constructor (method_args ''sphere'')))
            [MouseDown 200 200 viewport400, MouseMove 300 120, AnimationFrame,
             MouseMove 200 200, AnimationFrame] = Inr s1 \<and> q s1 = Quaternion 1 0 0 0)"
proof -
  have r: "run (constructor (method_args m)) [Reset] = Inr (reset (constructor (method_args m)))"
    for m by simp
  have vt: "viewport_ok (opts (reset (constructor (method_args ''trackball'')))) viewport400"
    by (simp add: reset_def draw_def constructor_fields method_args_def no_args_def
        viewport_ok_def)
  have vs: "viewport_ok (opts (reset (constructor (method_args ''sphere'')))) viewport400"
    by (simp add: reset_def draw_def constructor_fields method_args_def no_args_def
        viewport_ok_def projecting_def default_to_def)
  have inb: "isInBounds 200 200 viewport400" by simp
  have q1: "q (reset s) = Quaternion 1 0 0 0" for s by (simp add: reset_def draw_def)
  from C3_round_trip_restores_orientation [of "method_args ''trackball''" "[Reset]", OF _ r vt inb,
      of 220 200]
    C3_round_trip_restores_orientation [of "method_args ''sphere''" "[Reset]", OF _ r vs inb,
      of 300 120]
  show ?thesis by (simp add: method_args_def no_args_def q1 del: run.simps)
qed

text \<open>
  Claim C4 against the code. The constructor returns a controller for a missing
  \<open>rotationMethod\<close> and for a name outside the seven methods: the method stays
  \<open>undefined\<close> (it is neither rejected nor replaced by \<open>'trackball'\<close>),
  \<open>#project\<close> returns \<open>undefined\<close> for the start vector and for the sample, and the
  update of the first sample ends in a TypeError.
\<close>

theorem C4_unknown_method_is_accepted:
  "rotationMethod (opts (constructor no_args)) = None
   \<and> handleMouseDown (constructor no_args) 200 200 viewport400
       = Inr (dragging ((constructor no_args)\<lparr>drawn := [ONE, ONE]\<rparr>) None)
   \<and> project (opts (constructor no_args)) 220 200 viewport400 = Inr None
   \<and> update (handleMouseMove (dragging ((constructor no_args)\<lparr>drawn := [ONE, ONE]\<rparr>) None) 220 200)
       = Inl TypeError
   \<and> rotationMethod (opts (constructor (method_args ''arcball''))) = Some ''arcball''
   \<and> project (opts (constructor (method_args ''arcball''))) 220 200 viewport400 = Inr None"
  by (simp add: eval_defs dragging_def updateSphericalMethods_def)

text \<open>
  Claim C5. For \<open>'sphere'\<close>, \<open>'shoemake'\<close> and \<open>'rounded_arcball'\<close> with border 0
  (and a rectangle and a ballsize for which the normalised point exists): a point with
  \<open>px\<^sup>2 + py\<^sup>2 < 1\<close> projects to \<open>(px, py, z)\<close> with \<open>z > 0\<close> and
  \<open>px\<^sup>2 + py\<^sup>2 + z\<^sup>2 = 1\<close>; every other point, on the circle or outside, projects to
  \<open>(px, py, 0)\<close>, so the middle branch is never taken.
\<close>

theorem C5_sphere_cap_projection:
  assumes "rotationMethod o1 = Some ''sphere'' \<or> rotationMethod o1 = Some ''shoemake''
           \<or> rotationMethod o1 = Some ''rounded_arcball''"
      and "border o1 = 0"
      and "max (width b) (height b) \<noteq> 1" and "ballsize o1 \<noteq> 0"
  shows "((px o1 x b)\<^sup>2 + (py o1 y b)\<^sup>2 < 1 \<longrightarrow>
            (\<exists>z. project o1 x y b = Inr (Some (px o1 x b, py o1 y b, z)) \<and> 0 < z
                 \<and> (px o1 x b)\<^sup>2 + (py o1 y b)\<^sup>2 + z\<^sup>2 = 1))
         \<and> (\<not> (px o1 x b)\<^sup>2 + (py o1 y b)\<^sup>2 < 1 \<longrightarrow>
            project o1 x y b = Inr (Some (px o1 x b, py o1 y b, 0)))"
proof -
  define d2 where "d2 = (px o1 x b)\<^sup>2 + (py o1 y b)\<^sup>2"
  have m: "projecting (rotationMethod o1)" using assms(1) by (auto simp: projecting_def)
  have d2: "0 \<le> d2" by (simp add: d2_def)
  have lt: "sqrt d2 < 1 \<longleftrightarrow> d2 < 1" using d2 by (metis real_sqrt_lt_1_iff)
  have eq: "project o1 x y b =
      (if d2 < 1 then Inr (Some (px o1 x b, py o1 y b, sqrt (1 - d2)))
       else Inr (Some (px o1 x b, py o1 y b, 0)))"
    using m assms(2-4) lt
    by (simp add: project_def Let_def d2_def power2_eq_square)
  show ?thesis
  proof (cases "d2 < 1")
    case True
    then have "0 < sqrt (1 - d2)" by simp
    moreover have "d2 + (sqrt (1 - d2))\<^sup>2 = 1" using True by simp
    ultimately show ?thesis using True eq by (simp add: d2_def)
  next
    case False
    then show ?thesis using eq by (simp add: d2_def)
  qed
qed

text \<open>
  Claim C5, witness: the centre of a 3 by 3 rectangle projects to the pole
  \<open>(0, 0, 1)\<close>, a point outside the disk to the plane \<open>z = 0\<close>.
\<close>

theorem C5_witness:
  "project sphere_opts 2 2 unit_box = Inr (Some (0, 0, 1))
   \<and> project sphere_opts 5 2 unit_box = Inr (Some (3, 0, 0))"
proof -
  have m: "rotationMethod sphere_opts = Some ''sphere'' \<or> rotationMethod sphere_opts = Some ''shoemake''
           \<or> rotationMethod sphere_opts = Some ''rounded_arcball''"
    and bo: "border sphere_opts = 0" and bs: "ballsize sphere_opts \<noteq> 0"
    and vp: "max (width unit_box) (height unit_box) \<noteq> 1"
    by (simp_all add: sphere_opts_def unit_box_def)
  have p: "px sphere_opts 2 unit_box = 0" "py sphere_opts 2 unit_box = 0"
    "px sphere_opts 5 unit_box = 3"
    by (simp_all add: sphere_opts_def unit_box_def px_def py_def)
  from C5_sphere_cap_projection [OF m bo vp bs, of 2 2]
  obtain z where z: "project sphere_opts 2 2 unit_box = Inr (Some (0, 0, z))" "0 < z" "z\<^sup>2 = 1"
    by (auto simp: p)
  from z(2,3) have "z = 1" by (simp add: power2_eq_1_iff)
  with z(1) have inside: "project sphere_opts 2 2 unit_box = Inr (Some (0, 0, 1))" by simp
  from C5_sphere_cap_projection [OF m bo vp bs, of 5 2]
  have "project sphere_opts 5 2 unit_box = Inr (Some (3, 0, 0))" by (simp add: p)
  with inside show ?thesis by simp
qed

text \<open>
  Claim C6. Outside a drag, \<open>rotate\<close> sets the committed orientation to its product
  with the argument, makes the current orientation the same, and calls the draw callback
  with it; during a drag \<open>rotate\<close> leaves the whole state as it is.
\<close>

theorem C6_rotate_idle_or_dragging:
  "(drag s = None \<longrightarrow>
      q0 (rotate s p) = mul (q0 s) p \<and> q (rotate s p) = mul (q0 s) p
      \<and> drawn (rotate s p) = drawn s @ [mul (q0 s) p])
   \<and> (drag s \<noteq> None \<longrightarrow> rotate s p = s)"
  by (simp add: rotate_def draw_def)

text \<open>
  Claim C6, witness: \<open>rotate\<close> on a controller just constructed, and on the same
  controller after a mouse-down.
\<close>

theorem C6_rotate_witness:
  "drag (constructor no_args) = None
   \<and> q0 (rotate (constructor no_args) (Quaternion 0 1 0 0)) = Quaternion 0 1 0 0
   \<and> q (rotate (constructor no_args) (Quaternion 0 1 0 0)) = Quaternion 0 1 0 0
   \<and> drawn (rotate (constructor no_args) (Quaternion 0 1 0 0)) = [ONE, Quaternion 0 1 0 0]
   \<and> handleMouseDown (constructor no_args) 200 200 viewport400
       = Inr (dragging ((constructor no_args)\<lparr>drawn := [ONE, ONE]\<rparr>) None)
   \<and> rotate (dragging ((constructor no_args)\<lparr>drawn := [ONE, ONE]\<rparr>) None) (Quaternion 0 1 0 0)
       = dragging ((constructor no_args)\<lparr>drawn := [ONE, ONE]\<rparr>) None"
  using C6_rotate_idle_or_dragging [of "constructor no_args" "Quaternion 0 1 0 0"]
    C6_rotate_idle_or_dragging
      [of "dragging ((constructor no_args)\<lparr>drawn := [ONE, ONE]\<rparr>) None" "Quaternion 0 1 0 0"]
  by (simp add: constructor_def no_args_def draw_def default_to_def ONE_def handleMouseDown_def
      project_def projecting_def Let_def dragging_def)

text \<open>
  Claim C7. For \<open>'trackball_no_precession'\<close>, in a drag started at \<open>(sx, sy)\<close> on
  the rectangle \<open>b\<close> from the state \<open>s\<close>: after any list of samples the committed
  orientation is still the one of \<open>s\<close> and the drag still has the start position
  \<open>(sx, sy)\<close>; and a sample \<open>(cx, cy)\<close> that is applied (inside the rectangle,
  with a delta), after any list of earlier samples, sets the current orientation to the
  rotation for the delta \<open>(cx - sx, cy - sy)\<close> times the orientation committed before
  the drag. These hold of every run with finite numbers, and every such run has finite
  numbers when the smaller side of the rectangle is not zero.
\<close>

theorem C7_no_precession_deltas_from_drag_start:
  assumes "rotationMethod (opts s) = Some ''trackball_no_precession''"
  shows "(\<forall>s1. run s (MouseDown sx sy b # samples pts) = Inr s1
            \<longrightarrow> q0 s1 = q0 s
                \<and> drag s1 = Some \<lparr>startVector = None, startPosition = (sx, sy), box = b\<rparr>)
         \<and> (\<forall>s1. run s (MouseDown sx sy b # samples (pts @ [(cx, cy)])) = Inr s1
                 \<and> isInBounds cx cy b \<and> (cx \<noteq> sx \<or> cy \<noteq> sy)
            \<longrightarrow> q s1 = mul (trackball_dq (cx - sx) (cy - sy) (min (height b) (width b))) (q0 s))
         \<and> (min (height b) (width b) \<noteq> 0
            \<longrightarrow> (\<exists>s1. run s (MouseDown sx sy b # samples pts) = Inr s1))"
proof -
  let ?d = "\<lparr>startVector = None, startPosition = (sx, sy), box = b\<rparr>"
  let ?s0 = "s\<lparr>drag := Some ?d, drawn := drawn s @ [q s]\<rparr>"
  have np: "\<not> projecting (rotationMethod (opts s))" "rotationMethod (opts s) \<noteq> Some ''bell''"
    using assms by (simp_all add: projecting_def)
  have md: "handleMouseDown s sx sy b = Inr ?s0"
    by (simp add: handleMouseDown_def project_undefined [OF np] draw_def)
  have st: "step s (MouseDown sx sy b) = Inr ?s0" using md by simp
  have m0: "rotationMethod (opts ?s0) = Some ''trackball_no_precession''" using assms by simp
  have d0: "drag ?s0 = Some ?d" by simp
  have anchor: "q0 s1 = q0 s \<and> drag s1 = Some ?d"
    if "run s (MouseDown sx sy b # samples pts) = Inr s1" for s1
  proof -
    from that have "run ?s0 (samples pts) = Inr s1" by (simp only: run_after_step [OF st])
    from no_precession_samples [OF m0 d0 this] show ?thesis by simp
  qed
  have delta: "q s1 = mul (trackball_dq (cx - sx) (cy - sy) (min (height b) (width b))) (q0 s)"
    if h: "run s (MouseDown sx sy b # samples (pts @ [(cx, cy)])) = Inr s1"
      "isInBounds cx cy b" "cx \<noteq> sx \<or> cy \<noteq> sy" for s1
  proof -
    from h(1) have "run ?s0 (samples pts @ [MouseMove cx cy, AnimationFrame]) = Inr s1"
      by (simp only: run_after_step [OF st] samples_append samples.simps)
    then obtain s2 where s2: "run ?s0 (samples pts) = Inr s2"
      and r: "run s2 [MouseMove cx cy, AnimationFrame] = Inr s1"
      by (cases "run ?s0 (samples pts)") (simp_all add: run_append del: run.simps)
    from no_precession_samples [OF m0 d0 s2]
    have k: "q0 s2 = q0 s" "drag s2 = Some ?d" "opts s2 = opts s" by simp_all
    have m2: "rotationMethod (opts s2) = Some ''trackball_no_precession''"
      using k(3) assms by simp
    from no_precession_sample [OF m2 k(2) r] h(2,3) k(1) show ?thesis by auto
  qed
  have progress: "\<exists>s1. run s (MouseDown sx sy b # samples pts) = Inr s1"
    if vp: "min (height b) (width b) \<noteq> 0"
  proof -
    have f: "finite_ok ?s0"
      using assms vp
      by (simp add: finite_ok_def drag_ok_def viewport_ok_def projecting_def min.commute)
    have e: "\<forall>e \<in> set (samples pts). event_ok (opts ?s0) e"
      by (induction pts rule: samples.induct) simp_all
    have c: "commits_defined ?s0 (samples pts)"
      by (rule commits_defined_not_azel) (simp add: assms)
    from run_finite [OF f e c] show ?thesis by (auto simp only: run_after_step [OF st])
  qed
  from anchor delta progress show ?thesis by blast
qed

text \<open>
  Claim C7, witness: the scenario of the claim. After a mouse-down at \<open>(200, 200)\<close> in
  the 400 by 400 rectangle, the sample at \<open>(220, 200)\<close> gives the rotation for the
  delta 20 (half angle \<open>pi / 40\<close>) and the sample at \<open>(240, 200)\<close> the rotation for
  the delta 40 (half angle \<open>pi / 20\<close>), both times the committed orientation, which
  stays the identity, as the start position stays \<open>(200, 200)\<close>.
\<close>

theorem C7_witness:
  "(\<exists>s1. run (constructor (method_args ''trackball_no_precession''))
            [MouseDown 200 200 viewport400, MouseMove 220 200, AnimationFrame] = Inr s1
         \<and> q s1 = mul (Quaternion (cos (pi / 40)) 0 (sin (pi / 40)) 0) ONE \<and> q0 s1 = ONE
         \<and> drag s1 = Some \<lparr>startVector = None, startPosition = (200, 200), box = viewport400\<rparr>)
   \<and> (\<exists>s2. run (constructor (method_args ''trackball_no_precession''))
            [MouseDown 200 200 viewport400, MouseMove 220 200, AnimationFrame,
             MouseMove 240 200, AnimationFrame] = Inr s2
         \<and> q s2 = mul (Quaternion (cos (pi / 20)) 0 (sin (pi / 20)) 0) ONE \<and> q0 s2 = ONE
         \<and> drag s2 = Some \<lparr>startVector = None, startPosition = (200, 200), box = viewport400\<rparr>)"
proof -
  let ?c = "constructor (method_args ''trackball_no_precession'')"
  have m: "rotationMethod (opts ?c) = Some ''trackball_no_precession''"
    by (simp add: constructor_fields method_args_def no_args_def)
  have q0c: "q0 ?c = ONE"
    by (simp add: constructor_fields method_args_def no_args_def default_to_def)
  have c20: "trackball_dq 20 0 400 = Quaternion (cos (pi / 40)) 0 (sin (pi / 40)) 0"
    using trackball_dq_horizontal [of 400 20] by simp
  have c40: "trackball_dq 40 0 400 = Quaternion (cos (pi / 20)) 0 (sin (pi / 20)) 0"
    using trackball_dq_horizontal [of 400 40] by simp
  note first = C7_no_precession_deltas_from_drag_start
      [OF m, of 200 200 viewport400 "[]" 220 200]
  note second = C7_no_precession_deltas_from_drag_start
      [OF m, of 200 200 viewport400 "[(220, 200)]" 240 200]
  note both = C7_no_precession_deltas_from_drag_start
      [OF m, of 200 200 viewport400 "[(220, 200), (240, 200)]" 240 200]
  have "\<exists>s1. run ?c [MouseDown 200 200 viewport400, MouseMove 220 200, AnimationFrame] = Inr s1"
    using second [THEN conjunct2, THEN conjunct2] by (simp del: run.simps)
  then obtain s1
    where r1: "run ?c [MouseDown 200 200 viewport400, MouseMove 220 200, AnimationFrame] = Inr s1"
    by blast
  have a1: "q0 s1 = ONE
      \<and> drag s1 = Some \<lparr>startVector = None, startPosition = (200, 200), box = viewport400\<rparr>"
    using second [THEN conjunct1, THEN spec, of s1] r1 by (simp add: q0c del: run.simps)
  have b1: "q s1 = mul (Quaternion (cos (pi / 40)) 0 (sin (pi / 40)) 0) ONE"
    using first [THEN conjunct2, THEN conjunct1, THEN spec, of s1] r1
    by (simp add: q0c c20 del: run.simps)
  have "\<exists>s2. run ?c [MouseDown 200 200 viewport400, MouseMove 220 200, AnimationFrame,
                      MouseMove 240 200, AnimationFrame] = Inr s2"
    using both [THEN conjunct2, THEN conjunct2] by (simp del: run.simps)
  then obtain s2
    where r2: "run ?c [MouseDown 200 200 viewport400, MouseMove 220 200, AnimationFrame,
                       MouseMove 240 200, AnimationFrame] = Inr s2"
    by blast
  have a2: "q0 s2 = ONE
      \<and> drag s2 = Some \<lparr>startVector = None, startPosition = (200, 200), box = viewport400\<rparr>"
    using both [THEN conjunct1, THEN spec, of s2] r2 by (simp add: q0c del: run.simps)
  have b2: "q s2 = mul (Quaternion (cos (pi / 20)) 0 (sin (pi / 20)) 0) ONE"
    using second [THEN conjunct2, THEN conjunct1, THEN spec, of s2] r2
    by (simp add: q0c c40 del: run.simps)
  from r1 a1 b1 r2 a2 b2 show ?thesis by blast
qed

text \<open>
  Claim C8, as stated, is false. On a rectangle of height 0 the sample \<open>(10, 0)\<close> is in
  bounds and differs from the start \<open>(0, 0)\<close>, and \<open>#updateTrackball\<close> divides both
  deltas by the smaller side, which is 0: the axis, its norm and the angle are not
  finite, and the orientation is NaN.
\<close>

theorem C8_counterexample:
  "isInBounds 10 0 flat_viewport
   \<and> run (constructor (method_args ''trackball''))
         [MouseDown 0 0 flat_viewport, MouseMove 10 0, AnimationFrame] = Inl NonFinite"
  by (simp add: eval_defs flat_viewport_def)

text \<open>
  Claim C8, amended. During a drag on a rectangle on which the method divides by no
  zero: for the two trackball methods, and for \<open>'bell'\<close> with a start vector,
  \<open>#updateRotation\<close> computes no non-finite number for any sample (the division by the
  norm happens only for a non-zero delta, and the norm is then positive); a sample at the
  start position returns before the dispatch with the state as it is; and the projection
  of \<open>'bell'\<close> is finite for every point (the far branch divides by a distance of at
  least \<open>1 / sqrt 2\<close>).
\<close>

theorem C8_no_nan_in_nondegenerate_viewport:
  assumes "drag s = Some d" and "viewport_ok (opts s) (box d)"
  shows "(rotationMethod (opts s) = Some ''trackball''
            \<or> rotationMethod (opts s) = Some ''trackball_no_precession''
            \<or> rotationMethod (opts s) = Some ''bell'' \<and> startVector d \<noteq> None
          \<longrightarrow> (\<exists>s1. updateRotation s cx cy = Inr s1))
         \<and> (startPosition d = (cx, cy) \<longrightarrow> updateRotation s cx cy = Inr s)
         \<and> (rotationMethod (opts s) = Some ''bell''
          \<longrightarrow> (\<exists>z. project (opts s) cx cy (box d)
                     = Inr (Some (px (opts s) cx (box d), py (opts s) cy (box d), z))))"
proof (intro conjI impI)
  assume m: "rotationMethod (opts s) = Some ''trackball''
            \<or> rotationMethod (opts s) = Some ''trackball_no_precession''
            \<or> rotationMethod (opts s) = Some ''bell'' \<and> startVector d \<noteq> None"
  show "\<exists>s1. updateRotation s cx cy = Inr s1"
  proof (cases "rotationMethod (opts s) = Some ''bell''")
    case True
    with m have "startVector d \<noteq> None" by auto
    from updateRotation_bell [OF assms(1) True assms(2) this] show ?thesis .
  next
    case nb: False
    with m have m': "rotationMethod (opts s) = Some ''trackball''
            \<or> rotationMethod (opts s) = Some ''trackball_no_precession''" by blast
    then have vp: "min (height (box d)) (width (box d)) \<noteq> 0"
      using assms(2) by (auto simp: viewport_ok_def min.commute)
    show ?thesis
    proof (cases "cx - fst (startPosition d) = 0 \<and> cy - snd (startPosition d) = 0")
      case True
      then show ?thesis using assms(1) by (simp add: updateRotation_def)
    next
      case False
      then have nz: "cx - fst (startPosition d) \<noteq> 0 \<or> cy - snd (startPosition d) \<noteq> 0" by blast
      show ?thesis
        using assms(1) m' False updateTrackball_eq [OF assms(1) vp nz, of cx cy]
        by (auto simp: updateRotation_def Let_def)
    qed
  qed
next
  assume "startPosition d = (cx, cy)"
  then show "updateRotation s cx cy = Inr s" using assms(1) by (simp add: updateRotation_def)
next
  assume m: "rotationMethod (opts s) = Some ''bell''"
  then have "max (width (box d)) (height (box d)) - 1 \<noteq> 0" "ballsize (opts s) \<noteq> 0"
    using assms(2) by (simp_all add: viewport_ok_def projecting_def)
  from project_bell [OF m this] show
    "\<exists>z. project (opts s) cx cy (box d) = Inr (Some (px (opts s) cx (box d), py (opts s) cy (box d), z))" .
qed

text \<open>
  Claim C8, witness: a sample with a delta and one without for \<open>'trackball'\<close>, a
  sample and a projection for \<open>'bell'\<close>, in the 400 by 400 rectangle.
\<close>

theorem C8_witness:
  "(\<exists>s1. updateRotation (dragging (constructor (method_args ''trackball'')) None) 220 200 = Inr s1)
   \<and> updateRotation (dragging (constructor (method_args ''trackball'')) None) 200 200
       = Inr (dragging (constructor (method_args ''trackball'')) None)
   \<and> (\<exists>s1. updateRotation (dragging (constructor (method_args ''bell'')) (Some (0, 0, 1))) 220 200 = Inr s1)
   \<and> (\<exists>z. project (opts (constructor (method_args ''bell''))) 220 200 viewport400
           = Inr (Some (px (opts (constructor (method_args ''bell''))) 220 viewport400,
                        py (opts (constructor (method_args ''bell''))) 200 viewport400, z)))"
  using C8_no_nan_in_nondegenerate_viewport
      [of "dragging (constructor (method_args ''trackball'')) None"
          "\<lparr>startVector = None, startPosition = (200, 200), box = viewport400\<rparr>" 220 200]
    C8_no_nan_in_nondegenerate_viewport
      [of "dragging (constructor (method_args ''trackball'')) None"
          "\<lparr>startVector = None, startPosition = (200, 200), box = viewport400\<rparr>" 200 200]
    C8_no_nan_in_nondegenerate_viewport
      [of "dragging (constructor (method_args ''bell'')) (Some (0, 0, 1))"
          "\<lparr>startVector = Some (0, 0, 1), startPosition = (200, 200), box = viewport400\<rparr>" 220 200]
  by (simp add: dragging_def constructor_fields method_args_def no_args_def viewport_ok_def
      projecting_def default_to_def)

text \<open>
  Claim C9. After \<open>reset\<close>, from any state, the committed and the current orientation
  are \<open>(1, 0, 0, 0)\<close>, azimuth, elevation and their start values are 0, no drag is
  active, and the draw callback has been called with the identity.
\<close>

theorem C9_reset:
  "q0 (reset s) = Quaternion 1 0 0 0 \<and> q (reset s) = Quaternion 1 0 0 0
   \<and> azimuth (reset s) = Some 0 \<and> elevation (reset s) = Some 0
   \<and> azimuth_start (reset s) = Some 0 \<and> elevation_start (reset s) = Some 0
   \<and> drag (reset s) = None
   \<and> drawn (reset s) = drawn s @ [Quaternion 1 0 0 0]"
  by (simp add: reset_def draw_def)

text \<open>
  Claim C10. In every state reached from a constructed controller, the border that
  \<open>#project\<close> reads is \<open>0.5\<close> if the controller was constructed for
  \<open>'rounded_arcball'\<close>, whatever border was supplied, and otherwise the border
  supplied (0 if none was).
\<close>

theorem C10_border_fixed_at_construction:
  assumes "run (constructor a) evs = Inr s"
  shows "border (opts s) = (if arg_rotationMethod a = Some ''rounded_arcball'' then 0.5
                            else default_to 0 (arg_border a))"
  using run_opts [OF assms] by (simp add: constructor_fields)

text \<open>
  Claim C10, witness: a supplied border of 3 with \<open>'rounded_arcball'\<close> and with
  \<open>'sphere'\<close>, after a drag with one sample.
\<close>

theorem C10_witness:
  "(\<exists>s. run (constructor (border_args ''rounded_arcball'' 3))
            [MouseDown 200 200 viewport400, MouseMove 220 200, AnimationFrame, MouseUp]
           = Inr s \<and> border (opts s) = 0.5)
   \<and> (\<exists>s. run (constructor (border_args ''sphere'' 3))
            [MouseDown 200 200 viewport400, MouseMove 220 200, AnimationFrame, MouseUp]
           = Inr s \<and> border (opts s) = 3)"
proof -
  let ?evs = "[MouseDown 200 200 viewport400, MouseMove 220 200, AnimationFrame, MouseUp]"
  have e: "\<forall>e \<in> set ?evs. event_ok (opts (constructor (border_args m 3))) e"
    if "m = ''rounded_arcball'' \<or> m = ''sphere''" for m
    using that
    by (auto simp add: constructor_fields border_args_def no_args_def viewport_ok_def
        projecting_def default_to_def)
  have c: "commits_defined (constructor (border_args m 3)) ?evs"
    if "m = ''rounded_arcball'' \<or> m = ''sphere''" for m
    using that
    by (intro commits_defined_not_azel) (auto simp add: constructor_fields border_args_def no_args_def)
  from run_finite [OF finite_ok_constructor e c, of "''rounded_arcball''"]
  obtain s1 where r1: "run (constructor (border_args ''rounded_arcball'' 3)) ?evs = Inr s1"
    by auto
  from run_finite [OF finite_ok_constructor e c, of "''sphere''"]
  obtain s2 where r2: "run (constructor (border_args ''sphere'' 3)) ?evs = Inr s2"
    by auto
  from C10_border_fixed_at_construction [OF r1] C10_border_fixed_at_construction [OF r2]
  show ?thesis using r1 r2
    by (simp add: border_args_def no_args_def default_to_def del: run.simps)
qed

end
